theory Spec2Isabelle
  imports Main "HOL-Library.Sublist" "HOL-Library.Multiset" "HOL-Library.Char_ord"
    "HOL-Library.List_Lexorder"
begin

section \<open>Strings of the host language\<close>

text \<open>
  The scripts are TypeScript. A string of the program is modelled as a \<^typ>\<open>string\<close>,
  a list of code units; the text the scripts handle (URLs, tags, titles, hashes) is
  in the range a \<^typ>\<open>char\<close> covers.
\<close>

text \<open>
  Number to string conversion, as a template literal \<^verbatim>\<open>${page}\<close> performs it on a
  page index. The page indices are the non-negative integer loop counters of
  \<^verbatim>\<open>processPages\<close>; on such a number the conversion yields its decimal digits.
\<close>

definition digitChar :: "nat \<Rightarrow> char" where
  "digitChar d = ''0123456789'' ! d"

fun Number_toString :: "nat \<Rightarrow> string" where
  "Number_toString n =
     (if n < 10 then [digitChar n]
      else Number_toString (n div 10) @ [digitChar (n mod 10)])"

declare Number_toString.simps [simp del]

section \<open>examSaver: the page fetcher's request URL\<close>

text \<open>
  \<^verbatim>\<open>fetchPage\<close> of \<^verbatim>\<open>examSaver/src/index.ts\<close>, lines 30 to 47: the \<^verbatim>\<open>switch\<close> that
  picks the tag keyword and the conditional that builds the URL. The parameter
  \<^verbatim>\<open>category\<close> of the source is written \<open>cat\<close> throughout, \<open>category\<close> being the name of
  a field of the records below.
\<close>

definition baseUrl :: string where
  "baseUrl = ''https://exams.engsoc.uwaterloo.ca/''"

definition tagOf :: "string \<Rightarrow> string" where
  "tagOf cat =
     (if cat = ''Mathematics'' then ''mathematics''
      else if cat = ''Math'' then ''math''
      else ''electrical-and-computer'')"

definition fetchPage_url :: "nat \<Rightarrow> string \<Rightarrow> string" where
  "fetchPage_url page cat =
     (if page = 0
      then baseUrl @ ''?tag='' @ tagOf cat
      else baseUrl @ ''?tag='' @ tagOf cat @ ''&paged='' @ Number_toString page)"

text \<open>
  The older single-category script (the second file of \<^verbatim>\<open>unnamed/part_000\<close>,
  lines 81 to 85) has the tag keyword written into both URLs.
\<close>

definition fetchPage_url_v1 :: "nat \<Rightarrow> string" where
  "fetchPage_url_v1 page =
     (if page = 0
      then ''https://exams.engsoc.uwaterloo.ca/?tag=electrical-and-computer''
      else ''https://exams.engsoc.uwaterloo.ca/?tag=electrical-and-computer&paged=''
             @ Number_toString page)"

text \<open>
  To state what a request URL says without the functions that build it: the categories
  the script is run with and their tag keywords (every other category gets the keyword
  of the default branch), a reader of decimal numerals, and a reader of the query part
  of a URL.
\<close>

definition categoryTags :: "(string \<times> string) list" where
  "categoryTags =
     [(''ECE'', ''electrical-and-computer''),
      (''Mathematics'', ''mathematics''),
      (''Math'', ''math'')]"

definition tagKeyword :: "string \<Rightarrow> string" where
  "tagKeyword cat =
     (case map_of categoryTags cat of
        Some keyword \<Rightarrow> keyword
      | None \<Rightarrow> ''electrical-and-computer'')"

definition digitValue :: "char \<Rightarrow> nat option" where
  "digitValue c =
     (if 48 \<le> (of_char c :: nat) \<and> (of_char c :: nat) \<le> 57
      then Some ((of_char c :: nat) - 48) else None)"

fun readDigits :: "nat \<Rightarrow> string \<Rightarrow> nat option" where
  "readDigits acc [] = Some acc"
| "readDigits acc (c # cs) =
     (case digitValue c of
        None \<Rightarrow> None
      | Some d \<Rightarrow> readDigits (acc * 10 + d) cs)"

text \<open>A decimal numeral: digits only, at least one, and no leading zero before another digit.\<close>

definition readDecimal :: "string \<Rightarrow> nat option" where
  "readDecimal s =
     (if s = [] \<or> (hd s = CHR ''0'' \<and> tl s \<noteq> []) then None else readDigits 0 s)"

definition breakAt :: "char \<Rightarrow> string \<Rightarrow> string \<times> string" where
  "breakAt sep s = (takeWhile (\<lambda>c. c \<noteq> sep) s, drop 1 (dropWhile (\<lambda>c. c \<noteq> sep) s))"

fun splitAll :: "char \<Rightarrow> string \<Rightarrow> string \<Rightarrow> string list" where
  "splitAll sep cur [] = [rev cur]"
| "splitAll sep cur (c # cs) =
     (if c = sep then rev cur # splitAll sep [] cs else splitAll sep (c # cur) cs)"

text \<open>
  The part of a URL before the first question mark, and the parameters after it: the
  pieces between ampersands, each broken at its first equals sign.
\<close>

definition urlQuery :: "string \<Rightarrow> string \<times> (string \<times> string) list" where
  "urlQuery u =
     (fst (breakAt CHR ''?'' u),
      map (breakAt CHR ''='') (splitAll CHR ''&'' [] (snd (breakAt CHR ''?'' u))))"

section \<open>examSaver: the listing parser\<close>

text \<open>
  \<^verbatim>\<open>String.prototype.trim\<close> removes the white space and line terminator code units
  from both ends; of those, the ones in the range of \<^typ>\<open>char\<close> are tab, line feed,
  vertical tab, form feed, carriage return, space and no-break space.
\<close>

definition isWhiteSpace :: "char \<Rightarrow> bool" where
  "isWhiteSpace c \<longleftrightarrow>
     c \<in> set [CHR 0x09, CHR 0x0A, CHR 0x0B, CHR 0x0C, CHR 0x0D, CHR 0x20, CHR 0xA0]"

definition trim :: "string \<Rightarrow> string" where
  "trim s = rev (dropWhile isWhiteSpace (rev (dropWhile isWhiteSpace s)))"

text \<open>
  The parser works through the cheerio library, which is not part of the repository.
  Its operations are parameters of the model: what \<^verbatim>\<open>cheerio.load(html)\<close> returns is a
  record of the four operations the parser calls, over any type \<open>'n\<close> of document
  nodes. A selection is the list of its nodes, in document order;
  \<^verbatim>\<open>.attr\<close> answers \<open>None\<close> where the library answers \<^verbatim>\<open>undefined\<close>.
\<close>

record 'n cheerio =
  cheerio_select :: "string \<Rightarrow> 'n list"
  cheerio_find :: "'n list \<Rightarrow> string \<Rightarrow> 'n list"
  cheerio_text :: "'n list \<Rightarrow> string"
  cheerio_attr :: "'n list \<Rightarrow> string \<Rightarrow> string option"

record exam =
  title :: string
  url :: string
  category :: string

definition examBase :: string where
  "examBase = ''https://exams.engsoc.uwaterloo.ca/''"

text \<open>
  The title and the link that the callback of \<^verbatim>\<open>.each\<close> extracts from one element
  (\<^verbatim>\<open>index.ts\<close>, lines 16 and 17).
\<close>

definition blockTitle :: "'n cheerio \<Rightarrow> 'n \<Rightarrow> string" where
  "blockTitle dollar element =
     trim (cheerio_text dollar (cheerio_find dollar [element] ''h2.entry-title''))"

definition blockLink :: "'n cheerio \<Rightarrow> 'n \<Rightarrow> string option" where
  "blockLink dollar element =
     cheerio_attr dollar (cheerio_find dollar [element] ''div.entry-content a'') ''href''"

text \<open>
  The callback (lines 15 to 25): \<^verbatim>\<open>title && link\<close> holds when the title is not the
  empty string and the link is neither \<^verbatim>\<open>undefined\<close> nor the empty string; then one
  record is pushed on \<^verbatim>\<open>exams\<close>.
\<close>

definition parseExams_each :: "'n cheerio \<Rightarrow> string \<Rightarrow> exam list \<Rightarrow> 'n \<Rightarrow> exam list" where
  "parseExams_each dollar cat exams element =
     (let t = blockTitle dollar element in
      case blockLink dollar element of
        None \<Rightarrow> exams
      | Some link \<Rightarrow>
          if t \<noteq> [] \<and> link \<noteq> []
          then exams @ [\<lparr>title = t, url = examBase @ link, category = cat\<rparr>]
          else exams)"

definition parseExams :: "(string \<Rightarrow> 'n cheerio) \<Rightarrow> string \<Rightarrow> string \<Rightarrow> exam list" where
  "parseExams load html cat =
     (let dollar = load html in
      foldl (parseExams_each dollar cat) [] (cheerio_select dollar ''article.list-article''))"

text \<open>
  The older single-category script (\<^verbatim>\<open>unnamed/part_000\<close>, lines 66 to 79) has records
  without a category, here the pairs of a title and a URL, and a longer fixed prefix.
\<close>

definition examBase_v1 :: string where
  "examBase_v1 = ''https://exams.engsoc.uwaterloo.ca/?tag=electrical-and-computer/''"

definition parseExams_each_v1 :: "'n cheerio \<Rightarrow> (string \<times> string) list \<Rightarrow> 'n \<Rightarrow> (string \<times> string) list" where
  "parseExams_each_v1 dollar exams element =
     (let t = blockTitle dollar element in
      case blockLink dollar element of
        None \<Rightarrow> exams
      | Some link \<Rightarrow>
          if t \<noteq> [] \<and> link \<noteq> []
          then exams @ [(t, examBase_v1 @ link)]
          else exams)"

definition parseExams_v1 :: "(string \<Rightarrow> 'n cheerio) \<Rightarrow> string \<Rightarrow> (string \<times> string) list" where
  "parseExams_v1 load html =
     (let dollar = load html in
      foldl (parseExams_each_v1 dollar) [] (cheerio_select dollar ''article.list-article''))"

text \<open>
  A listing block has both fields when its trimmed title text is not empty and it has
  a link attribute that is not empty.
\<close>

definition hasBothFields :: "'n cheerio \<Rightarrow> 'n \<Rightarrow> bool" where
  "hasBothFields dollar element \<longleftrightarrow>
     blockTitle dollar element \<noteq> []
     \<and> (case blockLink dollar element of None \<Rightarrow> False | Some link \<Rightarrow> link \<noteq> [])"

text \<open>
  The same condition on the results of the library alone: the text of the heading has a
  character that is not white space, and the \<^verbatim>\<open>href\<close> of the anchor is there and not
  empty.
\<close>

definition titleAndLink :: "'n cheerio \<Rightarrow> 'n \<Rightarrow> bool" where
  "titleAndLink dollar element \<longleftrightarrow>
     list_ex (\<lambda>c. \<not> isWhiteSpace c)
       (cheerio_text dollar (cheerio_find dollar [element] ''h2.entry-title''))
     \<and> (case cheerio_attr dollar (cheerio_find dollar [element] ''div.entry-content a'') ''href'' of
          None \<Rightarrow> False
        | Some link \<Rightarrow> link \<noteq> [])"

subsection \<open>A document model to run the parser on\<close>

text \<open>
  To run the parser on a concrete page, the operations are interpreted on element
  trees, for the selectors the parser uses: a selector is a chain of \<^verbatim>\<open>tag\<close> or
  \<^verbatim>\<open>tag.class\<close> steps separated by spaces (descendant steps). Here a page is its
  parsed tree; the library's HTML reader is not modelled.
\<close>

datatype node = Text string | Element string "(string \<times> string) list" "node list"

fun textContent :: "node \<Rightarrow> string" where
  "textContent (Text s) = s"
| "textContent (Element tg as cs) = concat (map textContent cs)"

fun descendants :: "node \<Rightarrow> node list" where
  "descendants (Text s) = []"
| "descendants (Element tg as cs) = concat (map (\<lambda>c. c # descendants c) cs)"

fun splitOn :: "char \<Rightarrow> string \<Rightarrow> string \<Rightarrow> string list" where
  "splitOn sep cur [] = [rev cur]"
| "splitOn sep cur (c # cs) =
     (if c = sep then rev cur # splitOn sep [] cs else splitOn sep (c # cur) cs)"

fun matchesStep :: "string \<Rightarrow> node \<Rightarrow> bool" where
  "matchesStep step (Text s) = False"
| "matchesStep step (Element tg as cs) =
     (case splitOn CHR ''.'' [] step of
        [t] \<Rightarrow> tg = t
      | [t, c] \<Rightarrow> tg = t \<and>
          (case map_of as ''class'' of
             None \<Rightarrow> False
           | Some v \<Rightarrow> c \<in> set (splitOn CHR '' '' [] v))
      | _ \<Rightarrow> False)"

fun selectChain :: "string list \<Rightarrow> node list \<Rightarrow> node list" where
  "selectChain [] ns = ns"
| "selectChain (step # steps) ns =
     selectChain steps (remdups (filter (matchesStep step) (concat (map descendants ns))))"

definition dom_attr :: "node list \<Rightarrow> string \<Rightarrow> string option" where
  "dom_attr ns name =
     (case ns of
        Element tg as cs # rest \<Rightarrow> map_of as name
      | _ \<Rightarrow> None)"

definition dom_cheerio :: "node list \<Rightarrow> node cheerio" where
  "dom_cheerio doc =
     \<lparr>cheerio_select = (\<lambda>sel. selectChain (splitOn CHR '' '' [] sel) [Element ''root'' [] doc]),
      cheerio_find = (\<lambda>ns sel. selectChain (splitOn CHR '' '' [] sel) ns),
      cheerio_text = (\<lambda>ns. concat (map textContent ns)),
      cheerio_attr = dom_attr\<rparr>"

text \<open>The page of the end-to-end scenario: two listing blocks, the second with an empty title.\<close>

definition block1 :: node where
  "block1 =
     Element ''article'' [(''class'', ''post list-article'')]
       [Element ''h2'' [(''class'', ''entry-title'')] [Text ''Final 2020''],
        Element ''div'' [(''class'', ''entry-content'')]
          [Element ''p'' [] [Element ''a'' [(''href'', ''/papers/f20.pdf'')] [Text ''Download'']]]]"

definition block2 :: node where
  "block2 =
     Element ''article'' [(''class'', ''list-article'')]
       [Element ''h2'' [(''class'', ''entry-title'')] [],
        Element ''div'' [(''class'', ''entry-content'')]
          [Element ''a'' [(''href'', ''/papers/x.pdf'')] [Text ''Download'']]]"

definition scenarioPage :: "node list" where
  "scenarioPage = [Element ''div'' [(''id'', ''main'')] [block1, block2]]"

text \<open>
  A page with four listing blocks: the two above, one whose content has no anchor, and
  one with white space around its title.
\<close>

definition block3 :: node where
  "block3 =
     Element ''article'' [(''class'', ''list-article'')]
       [Element ''h2'' [(''class'', ''entry-title'')] [Text ''Midterm 2019''],
        Element ''div'' [(''class'', ''entry-content'')] [Text ''no file'']]"

definition block4 :: node where
  "block4 =
     Element ''article'' [(''class'', ''list-article sticky'')]
       [Element ''h2'' [(''class'', ''entry-title'')]
          [Text ''  '', Element ''span'' [] [Text ''Quiz 3''], Text [CHR 0x0A]],
        Element ''div'' [(''class'', ''entry-content'')]
          [Element ''a'' [(''href'', ''papers/q3.pdf'')] [Text ''Download'']]]"

definition listingPage :: "node list" where
  "listingPage = [Element ''main'' [] [block1, block2, block3], block4]"

text \<open>
  The listing blocks of a page, and the raw links of the blocks that have both fields,
  in document order.
\<close>

definition listingBlocks :: "(string \<Rightarrow> 'n cheerio) \<Rightarrow> string \<Rightarrow> 'n list" where
  "listingBlocks load html = cheerio_select (load html) ''article.list-article''"


section \<open>examSaver: the run orchestrator\<close>

text \<open>
  What a run does to the outside world is a trace of events. A rejected promise or a
  thrown exception is an \<open>error\<close> value; a step of the run returns the trace so far
  together with either the error or its result.
\<close>

datatype error =
    NetworkError string
  | HttpStatus nat
  | IOError string
  | SyntaxError
  | TypeError

text \<open>
  \<^verbatim>\<open>xlsx.utils.json_to_sheet\<close>, \<^verbatim>\<open>book_new\<close> and \<^verbatim>\<open>book_append_sheet\<close> belong to the xlsx
  library. A worksheet is kept as the rows it was made from, a workbook as the list of
  its named sheets.
\<close>

datatype worksheet = Json_to_sheet "exam list"

type_synonym workbook = "(string \<times> worksheet) list"

definition book_new :: workbook where
  "book_new = []"

definition book_append_sheet :: "workbook \<Rightarrow> worksheet \<Rightarrow> string \<Rightarrow> workbook" where
  "book_append_sheet wb ws name = wb @ [(name, ws)]"

datatype event =
    ConsoleLog string
  | ConsoleError error
  | HttpGet string "string option"
  | Delay nat
  | WriteFile string workbook

text \<open>
  The environment of a run: \<open>axios_get env k u c\<close> is the outcome of the request for
  URL \<open>u\<close> with cookie header \<open>c\<close> when \<open>k\<close> requests were issued before it (the library
  rejects on a transport failure and on a status outside 2xx); \<open>COOKIES\<close> is the
  variable of the process environment; \<open>cheerio_load\<close> is the library's reader;
  \<open>xlsx_writeFile\<close> answers the error of writing the file, if any.
\<close>

record 'n env =
  axios_get :: "nat \<Rightarrow> string \<Rightarrow> string option \<Rightarrow> error + string"
  COOKIES :: "string option"
  cheerio_load :: "string \<Rightarrow> 'n cheerio"
  xlsx_writeFile :: "string \<Rightarrow> workbook \<Rightarrow> error option"

fun isHttpGet :: "event \<Rightarrow> bool" where
  "isHttpGet (HttpGet u c) = True"
| "isHttpGet ev = False"

fun isWriteFile :: "event \<Rightarrow> bool" where
  "isWriteFile (WriteFile f wb) = True"
| "isWriteFile ev = False"

fun isDelay :: "event \<Rightarrow> bool" where
  "isDelay (Delay ms) = True"
| "isDelay ev = False"

text \<open>\<^verbatim>\<open>fetchPage\<close> (lines 30 to 58): one request; its rejection is not caught here.\<close>

definition fetchPage :: "'n env \<Rightarrow> event list \<Rightarrow> nat \<Rightarrow> string \<Rightarrow> event list \<times> (error + string)" where
  "fetchPage env tr page cat =
     (let u = fetchPage_url page cat in
      (tr @ [HttpGet u (COOKIES env)],
       axios_get env (length (filter isHttpGet tr)) u (COOKIES env)))"

definition fetchingMessage :: "string \<Rightarrow> nat \<Rightarrow> string" where
  "fetchingMessage cat page = ''Fetching '' @ cat @ '' page '' @ Number_toString page @ ''...''"

text \<open>
  One \<^verbatim>\<open>for (let page = 0; page <= bound; page++)\<close> loop of \<^verbatim>\<open>processPages\<close>, from the
  current value of \<^verbatim>\<open>page\<close>: log, fetch, parse, push, pause. The three loops of the
  source (lines 64 to 91) differ in the category and the bound only.
\<close>

function forPages ::
  "'n env \<Rightarrow> string \<Rightarrow> nat \<Rightarrow> nat \<Rightarrow> exam list \<Rightarrow> event list \<Rightarrow> event list \<times> (error + exam list)" where
  "forPages env cat bound page allExams tr =
     (if page \<le> bound then
        (case fetchPage env (tr @ [ConsoleLog (fetchingMessage cat page)]) page cat of
           (tr', Inl e) \<Rightarrow> (tr', Inl e)
         | (tr', Inr html) \<Rightarrow>
             forPages env cat bound (Suc page)
               (allExams @ parseExams (cheerio_load env) html cat)
               (tr' @ [Delay 1000]))
      else (tr, Inr allExams))"
  by pat_completeness auto
termination
  by (relation "measure (\<lambda>(env, cat, bound, page, allExams, tr). Suc bound - page)") auto

declare forPages.simps [simp del]

text \<open>\<^verbatim>\<open>processPages\<close> (lines 60 to 99).\<close>

definition processPages :: "'n env \<Rightarrow> event list \<times> (error + unit)" where
  "processPages env =
     (case forPages env ''ECE'' 80 0 [] [] of
        (tr1, Inl e) \<Rightarrow> (tr1, Inl e)
      | (tr1, Inr all1) \<Rightarrow>
     (case forPages env ''Mathematics'' 20 0 all1 tr1 of
        (tr2, Inl e) \<Rightarrow> (tr2, Inl e)
      | (tr2, Inr all2) \<Rightarrow>
     (case forPages env ''Math'' 5 0 all2 tr2 of
        (tr3, Inl e) \<Rightarrow> (tr3, Inl e)
      | (tr3, Inr all3) \<Rightarrow>
          (let worksheet = Json_to_sheet all3;
               workbook = book_append_sheet book_new worksheet ''Exams''
           in case xlsx_writeFile env ''exams.xlsx'' workbook of
                Some e \<Rightarrow> (tr3, Inl e)
              | None \<Rightarrow>
                  (tr3 @ [WriteFile ''exams.xlsx'' workbook,
                          ConsoleLog ''Exams saved to exams.xlsx''], Inr ())))))"

text \<open>
  The last line of the script, \<^verbatim>\<open>processPages().catch(console.error)\<close>: the handler logs
  the error and returns, so the promise that \<^verbatim>\<open>.catch\<close> returns is fulfilled whether
  \<^verbatim>\<open>processPages\<close> failed or not.
\<close>

definition promise_catch ::
  "(error \<Rightarrow> event list \<Rightarrow> event list) \<Rightarrow> event list \<times> (error + unit) \<Rightarrow> event list \<times> (error + unit)" where
  "promise_catch handler r =
     (case r of
        (tr, Inl e) \<Rightarrow> (handler e tr, Inr ())
      | (tr, Inr v) \<Rightarrow> (tr, Inr v))"

definition console_error :: "error \<Rightarrow> event list \<Rightarrow> event list" where
  "console_error e tr = tr @ [ConsoleError e]"

definition script :: "'n env \<Rightarrow> event list \<times> (error + unit)" where
  "script env = promise_catch console_error (processPages env)"

text \<open>
  The script sets no exit code and never calls \<^verbatim>\<open>process.exit\<close>. The runtime ends the
  process with status 1 when a rejection was left unhandled, and with status 0 when
  the work is done otherwise.
\<close>

definition exitCode :: "event list \<times> (error + unit) \<Rightarrow> nat" where
  "exitCode r = (case snd r of Inl e \<Rightarrow> 1 | Inr v \<Rightarrow> 0)"

text \<open>
  The pages of a run in the order the loops visit them, and the events of one page
  that is fetched without an error.
\<close>

definition pagesOf :: "string \<Rightarrow> nat \<Rightarrow> (string \<times> nat) list" where
  "pagesOf cat bound = map (\<lambda>page. (cat, page)) [0..<Suc bound]"

definition plan :: "(string \<times> nat) list" where
  "plan = pagesOf ''ECE'' 80 @ pagesOf ''Mathematics'' 20 @ pagesOf ''Math'' 5"

definition pageEvents :: "'n env \<Rightarrow> string \<times> nat \<Rightarrow> event list" where
  "pageEvents env cp =
     [ConsoleLog (fetchingMessage (fst cp) (snd cp)),
      HttpGet (fetchPage_url (snd cp) (fst cp)) (COOKIES env),
      Delay 1000]"

text \<open>Every request of the plan succeeds: the \<open>k\<close>-th request, for the \<open>k\<close>-th page.\<close>

definition allSucceed :: "'n env \<Rightarrow> (string \<times> nat) list \<Rightarrow> bool" where
  "allSucceed env ps \<longleftrightarrow>
     list_all (\<lambda>k. \<not> isl (axios_get env k (fetchPage_url (snd (ps ! k)) (fst (ps ! k))) (COOKIES env)))
       [0..<length ps]"

text \<open>
  The same steps as a recursion over the list of the pages still to visit; the three
  loops of \<^verbatim>\<open>processPages\<close> are this recursion over the plan.
\<close>

fun runPages ::
  "'n env \<Rightarrow> (string \<times> nat) list \<Rightarrow> exam list \<Rightarrow> event list \<Rightarrow> event list \<times> (error + exam list)" where
  "runPages env [] allExams tr = (tr, Inr allExams)"
| "runPages env (cp # ps) allExams tr =
     (case fetchPage env (tr @ [ConsoleLog (fetchingMessage (fst cp) (snd cp))]) (snd cp) (fst cp) of
        (tr', Inl e) \<Rightarrow> (tr', Inl e)
      | (tr', Inr html) \<Rightarrow>
          runPages env ps
            (allExams @ parseExams (cheerio_load env) html (fst cp))
            (tr' @ [Delay 1000]))"

text \<open>The outcome of the request for the \<open>i\<close>-th page of a list, after \<open>k\<close> earlier requests.\<close>

definition request :: "'n env \<Rightarrow> (string \<times> nat) list \<Rightarrow> nat \<Rightarrow> nat \<Rightarrow> error + string" where
  "request env ps k i =
     axios_get env (k + i) (fetchPage_url (snd (ps ! i)) (fst (ps ! i))) (COOKIES env)"

text \<open>
  Three environments to run the script in: every request answers a page; the third
  request answers status 503; the first request fails in transport.
\<close>

definition okEnv :: "node env" where
  "okEnv =
     \<lparr>axios_get = (\<lambda>k u c. Inr ''<html></html>''),
      COOKIES = Some ''session=abc'',
      cheerio_load = (\<lambda>html. dom_cheerio scenarioPage),
      xlsx_writeFile = (\<lambda>f wb. None)\<rparr>"

definition env503 :: "node env" where
  "env503 =
     \<lparr>axios_get = (\<lambda>k u c. if k = 2 then Inl (HttpStatus 503) else Inr ''<html></html>''),
      COOKIES = Some ''session=abc'',
      cheerio_load = (\<lambda>html. dom_cheerio scenarioPage),
      xlsx_writeFile = (\<lambda>f wb. None)\<rparr>"

definition downEnv :: "node env" where
  "downEnv =
     \<lparr>axios_get = (\<lambda>k u c. Inl (NetworkError ''ECONNREFUSED'')),
      COOKIES = None,
      cheerio_load = (\<lambda>html. dom_cheerio scenarioPage),
      xlsx_writeFile = (\<lambda>f wb. None)\<rparr>"

section \<open>github-org-commits viewer: loading the commits\<close>

text \<open>
  A value that \<^verbatim>\<open>JSON.parse\<close> returns. The numbers are floating point; their type \<open>'v\<close>
  and what the runtime does with them are parameters. An object is the list of its own
  properties, one entry for each key.
\<close>

datatype 'v json =
    JNull
  | JBool bool
  | JNumber 'v
  | JString string
  | JArray "'v json list"
  | JObject "(string \<times> 'v json) list"

text \<open>
  The runtime and the file system, as far as the viewer uses them: \<open>JSON_parse\<close> answers
  the value or the \<^verbatim>\<open>SyntaxError\<close> it throws; \<open>localeCompare\<close> and \<open>toLowerCase\<close> depend
  on the locale data of the runtime; \<open>readFile\<close> is the outcome of reading
  \<^verbatim>\<open>../out.jsonl\<close>.
\<close>

record 'v js =
  JSON_parse :: "string \<Rightarrow> error + 'v json"
  Number_string :: "'v \<Rightarrow> string"
  Number_falsy :: "'v \<Rightarrow> bool"
  localeCompare :: "string \<Rightarrow> string \<Rightarrow> int"
  toLowerCase :: "string \<Rightarrow> string"
  readFile :: "error + string"

record CommitRow =
  org :: string
  repo :: string
  repo_full_name :: string
  sha :: string
  html_url :: string
  api_url :: string
  author_login :: "string option"
  committer_login :: "string option"
  commit_author_name :: "string option"
  commit_author_email :: "string option"
  commit_author_date :: "string option"
  commit_committer_name :: "string option"
  commit_committer_email :: "string option"
  commit_committer_date :: "string option"
  message :: string

definition bindE :: "error + 'a \<Rightarrow> ('a \<Rightarrow> error + 'b) \<Rightarrow> error + 'b" where
  "bindE x f = (case x of Inl e \<Rightarrow> Inl e | Inr v \<Rightarrow> f v)"

definition try_catch :: "error + 'a \<Rightarrow> (error \<Rightarrow> error + 'a) \<Rightarrow> error + 'a" where
  "try_catch body handler = (case body of Inl e \<Rightarrow> handler e | Inr v \<Rightarrow> Inr v)"

text \<open>
  \<^verbatim>\<open>Array.prototype.join\<close> with the separator \<^verbatim>\<open>,\<close>, on the strings of the elements; the
  conversion of an element may throw.
\<close>

fun joinE :: "(error + string) list \<Rightarrow> error + string" where
  "joinE [] = Inr []"
| "joinE [x] = x"
| "joinE (x # y # ys) =
     bindE x (\<lambda>s. bindE (joinE (y # ys)) (\<lambda>r. Inr (s @ '','' @ r)))"

text \<open>
  \<^verbatim>\<open>String(v)\<close> on a parsed value. An array is joined, its \<^verbatim>\<open>null\<close> elements as empty
  strings. An object is converted by the inherited \<^verbatim>\<open>toString\<close> unless it has an own
  property of that name, which, as a parsed value, is not callable: then neither
  \<^verbatim>\<open>toString\<close> nor \<^verbatim>\<open>valueOf\<close> gives a primitive value and a \<^verbatim>\<open>TypeError\<close> is thrown.
\<close>

fun js_String :: "'v js \<Rightarrow> 'v json \<Rightarrow> error + string" where
  "js_String js JNull = Inr ''null''"
| "js_String js (JBool b) = Inr (if b then ''true'' else ''false'')"
| "js_String js (JNumber n) = Inr (Number_string js n)"
| "js_String js (JString s) = Inr s"
| "js_String js (JArray xs) =
     joinE (map (\<lambda>x. if x = JNull then Inr [] else js_String js x) xs)"
| "js_String js (JObject kvs) =
     (if ''toString'' \<in> set (map fst kvs) then Inl TypeError else Inr ''[object Object]'')"

fun falsy :: "'v js \<Rightarrow> 'v json \<Rightarrow> bool" where
  "falsy js JNull = True"
| "falsy js (JBool b) = (\<not> b)"
| "falsy js (JNumber n) = Number_falsy js n"
| "falsy js (JString s) = (s = [])"
| "falsy js (JArray xs) = False"
| "falsy js (JObject kvs) = False"

fun typeof :: "'v json \<Rightarrow> string" where
  "typeof JNull = ''object''"
| "typeof (JBool b) = ''boolean''"
| "typeof (JNumber n) = ''number''"
| "typeof (JString s) = ''string''"
| "typeof (JArray xs) = ''object''"
| "typeof (JObject kvs) = ''object''"

text \<open>
  Reading a property \<^verbatim>\<open>o.name\<close>, for the names \<^verbatim>\<open>_parseCommitRow\<close> reads: \<open>None\<close> is
  \<^verbatim>\<open>undefined\<close>. None of these names is inherited by an object or an array.
\<close>

fun getProp :: "'v json \<Rightarrow> string \<Rightarrow> 'v json option" where
  "getProp (JObject kvs) name = map_of kvs name"
| "getProp v name = None"

text \<open>
  \<^verbatim>\<open>_asStringOrNull\<close>, \<^verbatim>\<open>_asString\<close> and \<^verbatim>\<open>_parseCommitRow\<close> of the source are named here
  without the leading underscore.
\<close>

definition asStringOrNull :: "'v js \<Rightarrow> 'v json option \<Rightarrow> error + string option" where
  "asStringOrNull js v =
     (if v = None \<or> v = Some JNull then Inr None
      else bindE (js_String js (the v)) (\<lambda>s. Inr (Some s)))"

definition asString :: "'v js \<Rightarrow> 'v json option \<Rightarrow> error + string" where
  "asString js v =
     (if v = None \<or> v = Some JNull then Inr []
      else js_String js (the v))"

text \<open>
  \<^verbatim>\<open>_parseCommitRow\<close> (\<^verbatim>\<open>commits.ts\<close>, lines 32 to 54). \<open>Inr None\<close> is the returned
  \<^verbatim>\<open>null\<close>; the fields of the object literal are evaluated in the order written.
\<close>

definition parseCommitRow :: "'v js \<Rightarrow> 'v json \<Rightarrow> error + CommitRow option" where
  "parseCommitRow js obj =
     (if falsy js obj \<or> typeof obj \<noteq> ''object'' then Inr None
      else
        bindE (asString js (getProp obj ''sha'')) (\<lambda>sha'.
        if sha' = [] then Inr None
        else
          bindE (asString js (getProp obj ''org'')) (\<lambda>org'.
          bindE (asString js (getProp obj ''repo'')) (\<lambda>repo'.
          bindE (asString js (getProp obj ''repo_full_name'')) (\<lambda>repo_full_name'.
          bindE (asString js (getProp obj ''html_url'')) (\<lambda>html_url'.
          bindE (asString js (getProp obj ''api_url'')) (\<lambda>api_url'.
          bindE (asStringOrNull js (getProp obj ''author_login'')) (\<lambda>author_login'.
          bindE (asStringOrNull js (getProp obj ''committer_login'')) (\<lambda>committer_login'.
          bindE (asStringOrNull js (getProp obj ''commit_author_name'')) (\<lambda>commit_author_name'.
          bindE (asStringOrNull js (getProp obj ''commit_author_email'')) (\<lambda>commit_author_email'.
          bindE (asStringOrNull js (getProp obj ''commit_author_date'')) (\<lambda>commit_author_date'.
          bindE (asStringOrNull js (getProp obj ''commit_committer_name'')) (\<lambda>commit_committer_name'.
          bindE (asStringOrNull js (getProp obj ''commit_committer_email'')) (\<lambda>commit_committer_email'.
          bindE (asStringOrNull js (getProp obj ''commit_committer_date'')) (\<lambda>commit_committer_date'.
          bindE (asString js (getProp obj ''message'')) (\<lambda>message'.
          Inr (Some
            \<lparr>org = org', repo = repo', repo_full_name = repo_full_name', sha = sha',
             html_url = html_url', api_url = api_url',
             author_login = author_login', committer_login = committer_login',
             commit_author_name = commit_author_name',
             commit_author_email = commit_author_email',
             commit_author_date = commit_author_date',
             commit_committer_name = commit_committer_name',
             commit_committer_email = commit_committer_email',
             commit_committer_date = commit_committer_date',
             message = message'\<rparr>)))))))))))))))))"

text \<open>\<^verbatim>\<open>raw.split(/\r?\n/)\<close>: a line feed ends a line, with the carriage return before it.\<close>

fun splitLines_from :: "string \<Rightarrow> string \<Rightarrow> string list" where
  "splitLines_from cur [] = [rev cur]"
| "splitLines_from cur (c # cs) =
     (if c = CHR 0x0A then rev cur # splitLines_from [] cs
      else if c = CHR 0x0D \<and> cs \<noteq> [] \<and> hd cs = CHR 0x0A
        then rev cur # splitLines_from [] (tl cs)
      else splitLines_from (c # cur) cs)"

definition splitLines :: "string \<Rightarrow> string list" where
  "splitLines raw = splitLines_from [] raw"

text \<open>
  \<^verbatim>\<open>Array.prototype.sort\<close> with a comparison function: the language specifies a stable
  sort. It is modelled by insertion, which puts an element before the first one that
  does not compare below it.
\<close>

fun insertBy :: "('a \<Rightarrow> 'a \<Rightarrow> int) \<Rightarrow> 'a \<Rightarrow> 'a list \<Rightarrow> 'a list" where
  "insertBy cmp x [] = [x]"
| "insertBy cmp x (y # ys) = (if cmp x y \<le> 0 then x # y # ys else y # insertBy cmp x ys)"

definition Array_sort :: "('a \<Rightarrow> 'a \<Rightarrow> int) \<Rightarrow> 'a list \<Rightarrow> 'a list" where
  "Array_sort cmp xs = foldr (insertBy cmp) xs []"

text \<open>The body of the loop over the lines (lines 61 to 71), with its \<^verbatim>\<open>try\<close> and \<^verbatim>\<open>catch\<close>.\<close>

definition loadLine :: "'v js \<Rightarrow> CommitRow list \<Rightarrow> string \<Rightarrow> error + CommitRow list" where
  "loadLine js rows line =
     (let s = trim line in
      if s = [] then Inr rows
      else
        try_catch
          (bindE (JSON_parse js s) (\<lambda>parsed.
           bindE (parseCommitRow js parsed) (\<lambda>row.
           case row of None \<Rightarrow> Inr rows | Some r \<Rightarrow> Inr (rows @ [r]))))
          (\<lambda>e. Inr rows))"

fun forLines :: "'v js \<Rightarrow> CommitRow list \<Rightarrow> string list \<Rightarrow> error + CommitRow list" where
  "forLines js rows [] = Inr rows"
| "forLines js rows (line # rest) = bindE (loadLine js rows line) (\<lambda>rows'. forLines js rows' rest)"

definition dateOrEmpty :: "CommitRow \<Rightarrow> string" where
  "dateOrEmpty c = (case commit_author_date c of None \<Rightarrow> [] | Some d \<Rightarrow> if d = [] then [] else d)"

definition byDateDescending :: "'v js \<Rightarrow> CommitRow \<Rightarrow> CommitRow \<Rightarrow> int" where
  "byDateDescending js a b = localeCompare js (dateOrEmpty b) (dateOrEmpty a)"

definition loadCommitsFromRepoJsonl :: "'v js \<Rightarrow> error + CommitRow list" where
  "loadCommitsFromRepoJsonl js =
     bindE (readFile js) (\<lambda>raw.
     bindE (forLines js [] (splitLines raw)) (\<lambda>rows.
     Inr (Array_sort (byDateDescending js) rows)))"

text \<open>The row that one line of the file contributes, if any.\<close>

definition lineRow :: "'v js \<Rightarrow> string \<Rightarrow> CommitRow option" where
  "lineRow js line =
     (case loadLine js [] line of
        Inr [r] \<Rightarrow> Some r
      | _ \<Rightarrow> None)"

text \<open>A row whose fields are the coercions of the properties of a parsed value.\<close>

definition coercedFrom :: "'v js \<Rightarrow> 'v json \<Rightarrow> CommitRow \<Rightarrow> bool" where
  "coercedFrom js obj r \<longleftrightarrow>
     asString js (getProp obj ''org'') = Inr (org r)
     \<and> asString js (getProp obj ''repo'') = Inr (repo r)
     \<and> asString js (getProp obj ''repo_full_name'') = Inr (repo_full_name r)
     \<and> asString js (getProp obj ''sha'') = Inr (sha r)
     \<and> asString js (getProp obj ''html_url'') = Inr (html_url r)
     \<and> asString js (getProp obj ''api_url'') = Inr (api_url r)
     \<and> asStringOrNull js (getProp obj ''author_login'') = Inr (author_login r)
     \<and> asStringOrNull js (getProp obj ''committer_login'') = Inr (committer_login r)
     \<and> asStringOrNull js (getProp obj ''commit_author_name'') = Inr (commit_author_name r)
     \<and> asStringOrNull js (getProp obj ''commit_author_email'') = Inr (commit_author_email r)
     \<and> asStringOrNull js (getProp obj ''commit_author_date'') = Inr (commit_author_date r)
     \<and> asStringOrNull js (getProp obj ''commit_committer_name'') = Inr (commit_committer_name r)
     \<and> asStringOrNull js (getProp obj ''commit_committer_email'') = Inr (commit_committer_email r)
     \<and> asStringOrNull js (getProp obj ''commit_committer_date'') = Inr (commit_committer_date r)
     \<and> asString js (getProp obj ''message'') = Inr (message r)"

section \<open>github-org-commits viewer: filtering and grouping\<close>

text \<open>
  The memoised values \<^verbatim>\<open>filtered\<close> and \<^verbatim>\<open>grouped\<close> of \<^verbatim>\<open>CommitsClient\<close>
  (\<^verbatim>\<open>unnamed/part_001\<close>, lines 39 to 61), as functions of the commits and of the state:
  the search text \<open>q\<close> and the selected repository.
\<close>

definition String_includes :: "string \<Rightarrow> string \<Rightarrow> bool" where
  "String_includes s query = sublist query s"

definition filtered :: "'v js \<Rightarrow> CommitRow list \<Rightarrow> string \<Rightarrow> string \<Rightarrow> CommitRow list" where
  "filtered js commits q selected =
     (let query = toLowerCase js (trim q) in
      filter (\<lambda>c.
        if selected \<noteq> ''all'' \<and> repo_full_name c \<noteq> selected then False
        else if query = [] then True
        else String_includes (toLowerCase js (sha c)) query
             \<or> String_includes (toLowerCase js (repo_full_name c)) query
             \<or> String_includes (toLowerCase js (if message c \<noteq> [] then message c else [])) query)
        commits)"

definition groupKey :: "CommitRow \<Rightarrow> string" where
  "groupKey c = (if repo_full_name c \<noteq> [] then repo_full_name c else ''(unknown repo)'')"

text \<open>
  The \<^verbatim>\<open>Map\<close> is the list of its entries in insertion order; \<^verbatim>\<open>arr.push(c)\<close> changes
  the array of the entry in place.
\<close>

definition groupedStep :: "(string \<times> CommitRow list) list \<Rightarrow> CommitRow \<Rightarrow> (string \<times> CommitRow list) list" where
  "groupedStep m c =
     (let key = groupKey c in
      case map_of m key of
        Some arr \<Rightarrow> map (\<lambda>(k, a). if k = key then (k, a @ [c]) else (k, a)) m
      | None \<Rightarrow> m @ [(key, [c])])"

definition byName :: "'v js \<Rightarrow> string \<times> CommitRow list \<Rightarrow> string \<times> CommitRow list \<Rightarrow> int" where
  "byName js a b = localeCompare js (fst a) (fst b)"

definition grouped :: "'v js \<Rightarrow> CommitRow list \<Rightarrow> (string \<times> CommitRow list) list" where
  "grouped js flt = Array_sort (byName js) (foldl groupedStep [] flt)"

text \<open>
  A comparison function is consistent when the order it describes is total and
  transitive; the language promises a sorted result for such a function only.
\<close>

definition consistent :: "('a \<Rightarrow> 'a \<Rightarrow> int) \<Rightarrow> bool" where
  "consistent cmp \<longleftrightarrow>
     (\<forall>a b. cmp a b \<le> 0 \<or> cmp b a \<le> 0)
     \<and> (\<forall>a b c. cmp a b \<le> 0 \<and> cmp b c \<le> 0 \<longrightarrow> cmp a c \<le> 0)"

subsection \<open>A runtime and a file to run the viewer on\<close>

text \<open>
  Comparison by code units and lower case for the letters A to Z stand for the locale
  data; the parser knows the lines of the file below (after trimming) and throws on
  any other text; numbers are integers.
\<close>

definition compareUnits :: "string \<Rightarrow> string \<Rightarrow> int" where
  "compareUnits a b = (if a = b then 0 else if a < b then - 1 else 1)"

definition asciiLower :: "char \<Rightarrow> char" where
  "asciiLower c =
     (if CHR ''A'' \<le> c \<and> c \<le> CHR ''Z'' then char_of (of_char c + (32::nat)) else c)"

definition demoLine1 :: string where
  \<open>demoLine1 = ''{"sha":"a1","repo_full_name":"org/b","commit_author_date":"2024-01-02T00:00:00Z","message":"Fix bug"}''\<close>

definition demoLine2 :: string where
  \<open>demoLine2 = ''{"sha":"C3","repo_full_name":"org/a","commit_author_date":"2024-03-01T00:00:00Z"}''\<close>

definition demoLine3 :: string where
  \<open>demoLine3 = ''{"sha":{"toString":1},"org":"x"}''\<close>

definition demoLine4 :: string where
  \<open>demoLine4 = ''{"sha":"b2","repo_full_name":"org/b","commit_author_date":"2024-02-01T00:00:00Z","message":"Add"}''\<close>

definition demoLine5 :: string where
  \<open>demoLine5 = ''{"sha":"d4","commit_author_date":null,"org":7}''\<close>

definition demoRaw :: string where
  \<open>demoRaw =
     demoLine1 @ [CHR 0x0A]
     @ [CHR 0x0D, CHR 0x0A]
     @ ''not json'' @ [CHR 0x0A]
     @ ''[1,2]'' @ [CHR 0x0D, CHR 0x0A]
     @ ''{"sha":""}'' @ [CHR 0x0A]
     @ demoLine2 @ [CHR 0x0A]
     @ ''null'' @ [CHR 0x0A]
     @ demoLine3 @ [CHR 0x0A]
     @ ''  '' @ demoLine4 @ '' '' @ [CHR 0x0D, CHR 0x0A]
     @ demoLine5 @ [CHR 0x0A]\<close>

definition demoParse :: "string \<Rightarrow> error + int json" where
  \<open>demoParse s =
     (case map_of
        [(demoLine1,
          JObject [(''sha'', JString ''a1''), (''repo_full_name'', JString ''org/b''),
                   (''commit_author_date'', JString ''2024-01-02T00:00:00Z''),
                   (''message'', JString ''Fix bug'')]),
         (''[1,2]'', JArray [JNumber 1, JNumber 2]),
         (''{"sha":""}'', JObject [(''sha'', JString [])]),
         (demoLine2,
          JObject [(''sha'', JString ''C3''), (''repo_full_name'', JString ''org/a''),
                   (''commit_author_date'', JString ''2024-03-01T00:00:00Z'')]),
         (''null'', JNull),
         (demoLine3,
          JObject [(''sha'', JObject [(''toString'', JNumber 1)]), (''org'', JString ''x'')]),
         (demoLine4,
          JObject [(''sha'', JString ''b2''), (''repo_full_name'', JString ''org/b''),
                   (''commit_author_date'', JString ''2024-02-01T00:00:00Z''),
                   (''message'', JString ''Add'')]),
         (demoLine5,
          JObject [(''sha'', JString ''d4''), (''commit_author_date'', JNull),
                   (''org'', JNumber 7)])] s of
        None \<Rightarrow> Inl SyntaxError
      | Some v \<Rightarrow> Inr v)\<close>

definition demoJs :: "int js" where
  "demoJs =
     \<lparr>JSON_parse = demoParse,
      Number_string = (\<lambda>n. if n < 0 then ''-'' @ Number_toString (nat (- n)) else Number_toString (nat n)),
      Number_falsy = (\<lambda>n. n = 0),
      localeCompare = compareUnits,
      toLowerCase = map asciiLower,
      readFile = Inr demoRaw\<rparr>"

definition demoCommits :: "CommitRow list" where
  "demoCommits =
     Array_sort (byDateDescending demoJs) (List.map_filter (lineRow demoJs) (splitLines demoRaw))"

section \<open>Properties of the request URL\<close>

lemma tagOf_cases:
  "tagOf cat = ''mathematics'' \<or> tagOf cat = ''math''
     \<or> tagOf cat = ''electrical-and-computer''"
  by (simp add: tagOf_def)

lemma no_paged_in_first_page:
  "\<not> sublist ''paged'' (baseUrl @ ''?tag='' @ tagOf cat)"
proof -
  have a: "\<not> sublist ''paged'' (baseUrl @ ''?tag='' @ ''mathematics'')"
    by (simp add: baseUrl_def sublist_code)
  have b: "\<not> sublist ''paged'' (baseUrl @ ''?tag='' @ ''math'')"
    by (simp add: baseUrl_def sublist_code)
  have c: "\<not> sublist ''paged'' (baseUrl @ ''?tag='' @ ''electrical-and-computer'')"
    by (simp add: baseUrl_def sublist_code)
  from tagOf_cases [of cat] a b c show ?thesis
    by metis
qed

lemma paged_in_later_pages:
  "sublist ''paged'' (baseUrl @ ''?tag='' @ tagOf cat @ ''&paged='' @ digits)"
proof -
  have "baseUrl @ ''?tag='' @ tagOf cat @ ''&paged='' @ digits
        = (baseUrl @ ''?tag='' @ tagOf cat @ ''&'') @ ''paged'' @ (''='' @ digits)"
    by simp
  then show ?thesis
    by (metis sublist_appendI)
qed

lemma digitValue_digitChar: "d < 10 \<Longrightarrow> digitValue (digitChar d) = Some d"
proof -
  assume "d < 10"
  then have "d \<in> {0, 1, 2, 3, 4, 5, 6, 7, 8, 9}" by auto
  then show ?thesis
    by (auto simp: digitValue_def digitChar_def)
qed

lemma digitChar_in_digits: "d < 10 \<Longrightarrow> digitChar d \<in> set ''0123456789''"
  unfolding digitChar_def by (rule nth_mem) simp

lemma digitChar_zero:
  assumes "d < 10" and "digitChar d = CHR ''0''"
  shows "d = 0"
proof -
  from assms(1) have "digitValue (digitChar d) = Some d"
    by (rule digitValue_digitChar)
  with assms(2) have "digitValue CHR ''0'' = Some d" by simp
  moreover have "digitValue CHR ''0'' = Some 0" by (simp add: digitValue_def)
  ultimately show "d = 0" by simp
qed

lemma readDigits_append:
  "readDigits acc (xs @ ys) =
     (case readDigits acc xs of None \<Rightarrow> None | Some a \<Rightarrow> readDigits a ys)"
  by (induction xs arbitrary: acc) (simp_all split: option.splits)

lemma readDigits_Number_toString: "readDigits 0 (Number_toString n) = Some n"
proof (induction n rule: Number_toString.induct)
  case (1 n)
  show ?case
  proof (cases "n < 10")
    case True
    then show ?thesis
      by (simp add: Number_toString.simps [of n] digitValue_digitChar)
  next
    case False
    with 1 have "readDigits 0 (Number_toString (n div 10)) = Some (n div 10)" by simp
    moreover have "digitValue (digitChar (n mod 10)) = Some (n mod 10)"
      by (simp add: digitValue_digitChar)
    ultimately show ?thesis
      using False by (simp add: Number_toString.simps [of n] readDigits_append)
  qed
qed

lemma Number_toString_nonempty: "Number_toString n \<noteq> []"
  by (simp add: Number_toString.simps [of n])

lemma Number_toString_leading: "hd (Number_toString n) = CHR ''0'' \<Longrightarrow> n = 0"
proof (induction n rule: Number_toString.induct)
  case (1 n)
  show ?case
  proof (cases "n < 10")
    case True
    with "1.prems" show ?thesis
      by (simp add: Number_toString.simps [of n] digitChar_zero)
  next
    case False
    with "1.prems" have "hd (Number_toString (n div 10)) = CHR ''0''"
      by (simp add: Number_toString.simps [of n] Number_toString_nonempty)
    with False "1.IH" have "n div 10 = 0" by simp
    with False show ?thesis by simp
  qed
qed

lemma Number_toString_zero: "Number_toString 0 = ''0''"
  by (simp add: Number_toString.simps digitChar_def)

lemma readDecimal_Number_toString: "readDecimal (Number_toString n) = Some n"
proof (cases "n = 0")
  case True
  then show ?thesis
    by (simp add: Number_toString_zero readDecimal_def digitValue_def)
next
  case False
  then have "hd (Number_toString n) \<noteq> CHR ''0''"
    using Number_toString_leading by blast
  then show ?thesis
    by (simp add: readDecimal_def Number_toString_nonempty readDigits_Number_toString)
qed

lemma Number_toString_digits: "set (Number_toString n) \<subseteq> set ''0123456789''"
proof (induction n rule: Number_toString.induct)
  case (1 n)
  show ?case
  proof (cases "n < 10")
    case True
    then show ?thesis
      using digitChar_in_digits [of n] by (simp add: Number_toString.simps [of n])
  next
    case False
    with 1 have "set (Number_toString (n div 10)) \<subseteq> set ''0123456789''" by simp
    moreover have "digitChar (n mod 10) \<in> set ''0123456789''"
      by (rule digitChar_in_digits) simp
    ultimately show ?thesis
      using False by (simp add: Number_toString.simps [of n])
  qed
qed

lemma splitAll_no_sep: "sep \<notin> set xs \<Longrightarrow> splitAll sep cur xs = [rev cur @ xs]"
  by (induction xs arbitrary: cur) auto

lemma tagOf_tagKeyword: "tagOf cat = tagKeyword cat"
  by (simp add: tagOf_def tagKeyword_def categoryTags_def)

lemma query_first_page:
  "urlQuery (''https://exams.engsoc.uwaterloo.ca/?tag='' @ tagKeyword cat) =
     (''https://exams.engsoc.uwaterloo.ca/'', [(''tag'', tagKeyword cat)])"
proof -
  have k: "tagKeyword cat = ''mathematics'' \<or> tagKeyword cat = ''math''
     \<or> tagKeyword cat = ''electrical-and-computer''"
    by (simp add: tagKeyword_def categoryTags_def)
  then show ?thesis
    by (elim disjE) (simp_all add: urlQuery_def breakAt_def)
qed

lemma query_later_page:
  assumes "CHR ''&'' \<notin> set ds"
  shows "urlQuery (''https://exams.engsoc.uwaterloo.ca/?tag='' @ tagKeyword cat @ ''&paged='' @ ds) =
     (''https://exams.engsoc.uwaterloo.ca/'', [(''tag'', tagKeyword cat), (''paged'', ds)])"
proof -
  have k: "tagKeyword cat = ''mathematics'' \<or> tagKeyword cat = ''math''
     \<or> tagKeyword cat = ''electrical-and-computer''"
    by (simp add: tagKeyword_def categoryTags_def)
  then show ?thesis
    using assms by (elim disjE) (simp_all add: urlQuery_def breakAt_def splitAll_no_sep)
qed

lemma no_ampersand_in_digits: "CHR ''&'' \<notin> set (Number_toString n)"
  using Number_toString_digits [of n] by auto

text \<open>
  C1. For every page index and category, the URL that \<^verbatim>\<open>fetchPage\<close> requests is the
  base URL with \<^verbatim>\<open>tag=\<close> set to the category's tag keyword, followed, exactly when the
  page index is not 0, by the parameter \<^verbatim>\<open>paged\<close> with the page index in decimal: read
  as a URL, it has the base path and the parameter \<^verbatim>\<open>tag\<close>, and then \<^verbatim>\<open>paged\<close> and nothing
  else when the index is not 0; read as a decimal numeral, the value of \<^verbatim>\<open>paged\<close> is the
  index. The word \<^verbatim>\<open>paged\<close> occurs in the URL exactly when the page index is not 0. The
  older single-category script requests the same URLs as the ECE category does.
\<close>

theorem fetchPage_url_pagination:
  "fetchPage_url page cat =
     ''https://exams.engsoc.uwaterloo.ca/?tag='' @ tagKeyword cat
       @ (if page = 0 then [] else ''&paged='' @ Number_toString page)
   \<and> readDecimal (Number_toString page) = Some page
   \<and> urlQuery (fetchPage_url page cat) =
       (''https://exams.engsoc.uwaterloo.ca/'',
        (''tag'', tagKeyword cat)
          # (if page = 0 then [] else [(''paged'', Number_toString page)]))
   \<and> fetchPage_url page cat =
       baseUrl @ ''?tag='' @ tagOf cat
         @ (if page = 0 then [] else ''&paged='' @ Number_toString page)
   \<and> (sublist ''paged'' (fetchPage_url page cat) \<longleftrightarrow> page \<noteq> 0)
   \<and> fetchPage_url_v1 page = fetchPage_url page ''ECE''"
proof -
  have u: "fetchPage_url page cat =
     ''https://exams.engsoc.uwaterloo.ca/?tag='' @ tagKeyword cat
       @ (if page = 0 then [] else ''&paged='' @ Number_toString page)"
    by (simp add: fetchPage_url_def baseUrl_def tagOf_tagKeyword)
  have q: "urlQuery (fetchPage_url page cat) =
       (''https://exams.engsoc.uwaterloo.ca/'',
        (''tag'', tagKeyword cat)
          # (if page = 0 then [] else [(''paged'', Number_toString page)]))"
  proof (cases "page = 0")
    case True
    with query_first_page [of cat] show ?thesis
      unfolding u by simp
  next
    case False
    with query_later_page [of "Number_toString page" cat, OF no_ampersand_in_digits] show ?thesis
      unfolding u by simp
  qed
  have o: "fetchPage_url page cat =
       baseUrl @ ''?tag='' @ tagOf cat
         @ (if page = 0 then [] else ''&paged='' @ Number_toString page)"
    by (simp add: fetchPage_url_def)
  have p: "sublist ''paged'' (fetchPage_url page cat) \<longleftrightarrow> page \<noteq> 0"
  proof (cases "page = 0")
    case True
    with no_paged_in_first_page [of cat] show ?thesis
      unfolding fetchPage_url_def by simp
  next
    case False
    with paged_in_later_pages [of cat "Number_toString page"] show ?thesis
      unfolding fetchPage_url_def by simp
  qed
  have v: "fetchPage_url_v1 page = fetchPage_url page ''ECE''"
    by (simp add: fetchPage_url_def fetchPage_url_v1_def baseUrl_def tagOf_def)
  from u readDecimal_Number_toString [of page] q o p v show ?thesis
    by (intro conjI)
qed

lemma Number_toString_80: "Number_toString 80 = ''80''"
  by (simp add: Number_toString.simps digitChar_def)

lemma Number_toString_5: "Number_toString 5 = ''5''"
  by (simp add: Number_toString.simps digitChar_def)

theorem fetchPage_url_pagination_witness:
  "fetchPage_url 80 ''Mathematics'' = ''https://exams.engsoc.uwaterloo.ca/?tag=mathematics&paged=80''
   \<and> fetchPage_url 0 ''Math'' = ''https://exams.engsoc.uwaterloo.ca/?tag=math''
   \<and> fetchPage_url 5 ''ECE'' = ''https://exams.engsoc.uwaterloo.ca/?tag=electrical-and-computer&paged=5''
   \<and> urlQuery (fetchPage_url 80 ''Mathematics'') =
       (''https://exams.engsoc.uwaterloo.ca/'', [(''tag'', ''mathematics''), (''paged'', ''80'')])
   \<and> readDecimal ''80'' = Some 80"
proof -
  have k: "tagKeyword ''Mathematics'' = ''mathematics''" "tagKeyword ''Math'' = ''math''"
    "tagKeyword ''ECE'' = ''electrical-and-computer''"
    by (simp_all add: tagKeyword_def categoryTags_def)
  note m = fetchPage_url_pagination [of 80 "''Mathematics''", unfolded k Number_toString_80]
  from m [THEN conjunct1]
  have a: "fetchPage_url 80 ''Mathematics'' = ''https://exams.engsoc.uwaterloo.ca/?tag=mathematics&paged=80''"
    by simp
  from m [THEN conjunct2, THEN conjunct1]
  have d: "readDecimal ''80'' = Some 80" .
  from m [THEN conjunct2, THEN conjunct2, THEN conjunct1]
  have q: "urlQuery (fetchPage_url 80 ''Mathematics'') =
       (''https://exams.engsoc.uwaterloo.ca/'', [(''tag'', ''mathematics''), (''paged'', ''80'')])"
    by simp
  from fetchPage_url_pagination [of 0 "''Math''", unfolded k, THEN conjunct1]
  have b: "fetchPage_url 0 ''Math'' = ''https://exams.engsoc.uwaterloo.ca/?tag=math''"
    by simp
  from fetchPage_url_pagination [of 5 "''ECE''", unfolded k Number_toString_5, THEN conjunct1]
  have c: "fetchPage_url 5 ''ECE'' = ''https://exams.engsoc.uwaterloo.ca/?tag=electrical-and-computer&paged=5''"
    by simp
  from a b c q d show ?thesis by (intro conjI)
qed


text \<open>
  C10. Every category other than \<^verbatim>\<open>Mathematics\<close> and \<^verbatim>\<open>Math\<close>, the empty and the
  unknown ones included, is mapped to the tag \<^verbatim>\<open>electrical-and-computer\<close>; the
  mapping is total, so no category is an error.
\<close>

theorem tagOf_default:
  "cat \<noteq> ''Mathematics'' \<Longrightarrow> cat \<noteq> ''Math'' \<Longrightarrow>
     tagOf cat = ''electrical-and-computer''
     \<and> fetchPage_url page cat =
         ''https://exams.engsoc.uwaterloo.ca/?tag=electrical-and-computer''
           @ (if page = 0 then [] else ''&paged='' @ Number_toString page)"
  by (simp add: tagOf_def fetchPage_url_def baseUrl_def)

theorem tagOf_default_witness:
  "tagOf ''Physics'' = ''electrical-and-computer''
   \<and> tagOf [] = ''electrical-and-computer''
   \<and> fetchPage_url 0 ''Physics'' = ''https://exams.engsoc.uwaterloo.ca/?tag=electrical-and-computer''
   \<and> fetchPage_url 7 [] = ''https://exams.engsoc.uwaterloo.ca/?tag=electrical-and-computer&paged=7''"
proof -
  have n7: "Number_toString 7 = ''7''"
    by (simp add: Number_toString.simps digitChar_def)
  from tagOf_default [of "''Physics''" 0] tagOf_default [of "[]" 7] n7
  show ?thesis by simp
qed


section \<open>Properties of the listing parser\<close>

lemma parseExams_each_eq:
  "parseExams_each dollar cat exams element =
     exams @ (if hasBothFields dollar element
              then [\<lparr>title = blockTitle dollar element,
                     url = examBase @ the (blockLink dollar element),
                     category = cat\<rparr>]
              else [])"
  by (simp add: parseExams_each_def hasBothFields_def Let_def split: option.splits)

lemma foldl_parseExams_each:
  "foldl (parseExams_each dollar cat) exams elements =
     exams @ map (\<lambda>element. \<lparr>title = blockTitle dollar element,
                     url = examBase @ the (blockLink dollar element),
                     category = cat\<rparr>) (filter (hasBothFields dollar) elements)"
  by (induction elements arbitrary: exams) (simp_all add: parseExams_each_eq)

lemma parseExams_each_v1_eq:
  "parseExams_each_v1 dollar exams element =
     exams @ (if hasBothFields dollar element
              then [(blockTitle dollar element, examBase_v1 @ the (blockLink dollar element))]
              else [])"
  by (simp add: parseExams_each_v1_def hasBothFields_def Let_def split: option.splits)

lemma foldl_parseExams_each_v1:
  "foldl (parseExams_each_v1 dollar) exams elements =
     exams @ map (\<lambda>element. (blockTitle dollar element, examBase_v1 @ the (blockLink dollar element)))
       (filter (hasBothFields dollar) elements)"
  by (induction elements arbitrary: exams) (simp_all add: parseExams_each_v1_eq)


lemma trim_empty_iff: "trim s = [] \<longleftrightarrow> (\<forall>c\<in>set s. isWhiteSpace c)"
proof -
  have "trim s = [] \<longleftrightarrow> (\<forall>c\<in>set (dropWhile isWhiteSpace s). isWhiteSpace c)"
    by (simp add: trim_def dropWhile_eq_Nil_conv)
  also have "\<dots> \<longleftrightarrow> dropWhile isWhiteSpace s = []"
  proof
    assume all: "\<forall>c\<in>set (dropWhile isWhiteSpace s). isWhiteSpace c"
    show "dropWhile isWhiteSpace s = []"
    proof (rule ccontr)
      assume ne: "dropWhile isWhiteSpace s \<noteq> []"
      then have "\<not> isWhiteSpace (hd (dropWhile isWhiteSpace s))"
        by (rule hd_dropWhile)
      moreover from ne have "hd (dropWhile isWhiteSpace s) \<in> set (dropWhile isWhiteSpace s)"
        by (rule hd_in_set)
      ultimately show False using all by blast
    qed
  next
    assume e: "dropWhile isWhiteSpace s = []"
    show "\<forall>c\<in>set (dropWhile isWhiteSpace s). isWhiteSpace c"
      unfolding e by simp
  qed
  also have "\<dots> \<longleftrightarrow> (\<forall>c\<in>set s. isWhiteSpace c)"
    by (simp add: dropWhile_eq_Nil_conv)
  finally show ?thesis .
qed

lemma hasBothFields_titleAndLink: "hasBothFields dollar element \<longleftrightarrow> titleAndLink dollar element"
  by (auto simp: hasBothFields_def titleAndLink_def blockTitle_def blockLink_def trim_empty_iff
      list_ex_iff split: option.splits)

text \<open>
  C2. The parser returns exactly one record for each listing block (each element that
  \<^verbatim>\<open>article.list-article\<close> selects) whose heading text has a character that is not
  white space and whose anchor has an \<^verbatim>\<open>href\<close> that is not empty, in document order, and
  nothing for the other blocks: with \<open>M\<close> such blocks among the \<open>N\<close> selected, the result
  has length \<open>M\<close>. The record of a block has the trimmed heading text, the base path
  followed by that \<^verbatim>\<open>href\<close>, and the category passed in. The older single-category
  parser returns as many records.
\<close>

theorem parseExams_one_record_per_complete_block:
  "parseExams load html cat =
     map (\<lambda>element.
            \<lparr>title = trim (cheerio_text (load html)
                              (cheerio_find (load html) [element] ''h2.entry-title'')),
             url = examBase @
                   the (cheerio_attr (load html)
                          (cheerio_find (load html) [element] ''div.entry-content a'') ''href''),
             category = cat\<rparr>)
       (filter (titleAndLink (load html))
          (cheerio_select (load html) ''article.list-article''))
   \<and> length (parseExams load html cat) =
       length (filter (titleAndLink (load html))
                 (cheerio_select (load html) ''article.list-article''))
   \<and> length (parseExams_v1 load html) =
       length (filter (titleAndLink (load html))
                 (cheerio_select (load html) ''article.list-article''))"
proof -
  have f: "hasBothFields (load html) = titleAndLink (load html)"
    by (rule ext) (rule hasBothFields_titleAndLink)
  show ?thesis
    by (simp add: parseExams_def parseExams_v1_def Let_def
        foldl_parseExams_each foldl_parseExams_each_v1 f blockTitle_def blockLink_def)
qed

lemma listingPage_blocks:
  "cheerio_select (dom_cheerio listingPage) ''article.list-article'' = [block1, block2, block3, block4]"
  by code_simp

lemma listingPage_complete:
  "filter (titleAndLink (dom_cheerio listingPage)) [block1, block2, block3, block4] = [block1, block4]"
  by code_simp

lemma listingPage_records:
  "parseExams (\<lambda>h. dom_cheerio listingPage) ''<html>'' ''Math'' =
     [\<lparr>title = ''Final 2020'', url = ''https://exams.engsoc.uwaterloo.ca//papers/f20.pdf'',
       category = ''Math''\<rparr>,
      \<lparr>title = ''Quiz 3'', url = ''https://exams.engsoc.uwaterloo.ca/papers/q3.pdf'',
       category = ''Math''\<rparr>]"
  by code_simp

theorem parseExams_one_record_per_complete_block_witness:
  "length (cheerio_select (dom_cheerio listingPage) ''article.list-article'') = 4
   \<and> filter (titleAndLink (dom_cheerio listingPage))
        (cheerio_select (dom_cheerio listingPage) ''article.list-article'') = [block1, block4]
   \<and> length (parseExams (\<lambda>h. dom_cheerio listingPage) ''<html>'' ''Math'') = 2
   \<and> length (parseExams_v1 (\<lambda>h. dom_cheerio listingPage) ''<html>'') = 2
   \<and> parseExams (\<lambda>h. dom_cheerio listingPage) ''<html>'' ''Math'' =
       [\<lparr>title = ''Final 2020'', url = ''https://exams.engsoc.uwaterloo.ca//papers/f20.pdf'',
         category = ''Math''\<rparr>,
        \<lparr>title = ''Quiz 3'', url = ''https://exams.engsoc.uwaterloo.ca/papers/q3.pdf'',
         category = ''Math''\<rparr>]"
proof -
  note t = parseExams_one_record_per_complete_block
    [of "\<lambda>h. dom_cheerio listingPage" "''<html>''" "''Math''",
     unfolded listingPage_blocks listingPage_complete]
  from t [THEN conjunct2, THEN conjunct1]
  have a: "length (parseExams (\<lambda>h. dom_cheerio listingPage) ''<html>'' ''Math'') = 2" by simp
  from t [THEN conjunct2, THEN conjunct2]
  have b: "length (parseExams_v1 (\<lambda>h. dom_cheerio listingPage) ''<html>'') = 2" by simp
  have n: "length (cheerio_select (dom_cheerio listingPage) ''article.list-article'') = 4"
    unfolding listingPage_blocks by simp
  have m: "filter (titleAndLink (dom_cheerio listingPage))
        (cheerio_select (dom_cheerio listingPage) ''article.list-article'') = [block1, block4]"
    unfolding listingPage_blocks by (rule listingPage_complete)
  from n m a b listingPage_records show ?thesis by (intro conjI)
qed




lemma trim_Final: "trim ''Final 2020'' = ''Final 2020''"
  by (simp add: trim_def isWhiteSpace_def)

text \<open>
  C7. On a page with exactly two listing blocks, one with the title text
  \<^verbatim>\<open>Final 2020\<close> and the link \<^verbatim>\<open>/papers/f20.pdf\<close>, the other with an empty title, the
  parser returns exactly one record: that title, the base path followed by that link,
  and the category it was given.
\<close>

theorem parseExams_scenario:
  assumes "listingBlocks load html = [b1, b2] \<or> listingBlocks load html = [b2, b1]"
    and "cheerio_text (load html) (cheerio_find (load html) [b1] ''h2.entry-title'') = ''Final 2020''"
    and "cheerio_attr (load html) (cheerio_find (load html) [b1] ''div.entry-content a'') ''href''
           = Some ''/papers/f20.pdf''"
    and "cheerio_text (load html) (cheerio_find (load html) [b2] ''h2.entry-title'') = []"
  shows "parseExams load html cat =
     [\<lparr>title = ''Final 2020'', url = examBase @ ''/papers/f20.pdf'', category = cat\<rparr>]"
proof -
  have t1: "blockTitle (load html) b1 = ''Final 2020''"
    unfolding blockTitle_def assms(2) by (rule trim_Final)
  have l1: "blockLink (load html) b1 = Some ''/papers/f20.pdf''"
    unfolding blockLink_def by (rule assms(3))
  have t2: "blockTitle (load html) b2 = []"
    unfolding blockTitle_def assms(4) by (simp add: trim_def)
  have k1: "hasBothFields (load html) b1"
    unfolding hasBothFields_def t1 l1 by simp
  have k2: "\<not> hasBothFields (load html) b2"
    unfolding hasBothFields_def t2 by simp
  have e: "parseExams load html cat =
     map (\<lambda>element. \<lparr>title = blockTitle (load html) element,
                      url = examBase @ the (blockLink (load html) element),
                      category = cat\<rparr>)
       (filter (hasBothFields (load html)) (listingBlocks load html))"
    by (simp add: parseExams_def listingBlocks_def Let_def foldl_parseExams_each)
  from assms(1) show ?thesis
  proof
    assume "listingBlocks load html = [b1, b2]"
    then show ?thesis unfolding e by (simp add: k1 k2 t1 l1)
  next
    assume "listingBlocks load html = [b2, b1]"
    then show ?thesis unfolding e by (simp add: k1 k2 t1 l1)
  qed
qed

lemma scenario_blocks:
  "listingBlocks (\<lambda>h. dom_cheerio scenarioPage) html = [block1, block2]"
  unfolding listingBlocks_def by code_simp

lemma scenario_t1: "cheerio_text (dom_cheerio scenarioPage) (cheerio_find (dom_cheerio scenarioPage) [block1] ''h2.entry-title'') = ''Final 2020''"
  by code_simp

lemma scenario_l1: "cheerio_attr (dom_cheerio scenarioPage) (cheerio_find (dom_cheerio scenarioPage) [block1] ''div.entry-content a'') ''href''
           = Some ''/papers/f20.pdf''"
  by code_simp

lemma scenario_t2: "cheerio_text (dom_cheerio scenarioPage) (cheerio_find (dom_cheerio scenarioPage) [block2] ''h2.entry-title'') = []"
  by code_simp

theorem parseExams_scenario_witness:
  "listingBlocks (\<lambda>h. dom_cheerio scenarioPage) ''<html>'' = [block1, block2]
   \<and> parseExams (\<lambda>h. dom_cheerio scenarioPage) ''<html>'' ''ECE'' =
       [\<lparr>title = ''Final 2020'',
         url = ''https://exams.engsoc.uwaterloo.ca//papers/f20.pdf'',
         category = ''ECE''\<rparr>]"
  using parseExams_scenario [of "\<lambda>h. dom_cheerio scenarioPage" "''<html>''" block1 block2 "''ECE''"]
    scenario_blocks [of "''<html>''"] scenario_t1 scenario_l1 scenario_t2
  by (simp add: examBase_def)


section \<open>Properties of the run orchestrator\<close>

lemma forPages_runPages:
  "forPages env cat bound page allExams tr =
     runPages env (map (\<lambda>p. (cat, p)) [page..<Suc bound]) allExams tr"
proof (induction env cat bound page allExams tr rule: forPages.induct)
  case (1 env cat bound page allExams tr)
  show ?case
  proof (cases "page \<le> bound")
    case True
    then have u: "[page..<Suc bound] = page # [Suc page..<Suc bound]"
      by (simp add: upt_conv_Cons)
    show ?thesis
    proof (cases "fetchPage env (tr @ [ConsoleLog (fetchingMessage cat page)]) page cat")
      case (Pair tr' r)
      show ?thesis
      proof (cases r)
        case (Inl e)
        with Pair True u show ?thesis
          by (simp add: forPages.simps [of env cat bound page])
      next
        case (Inr html)
        with Pair True u "1.IH" show ?thesis
          by (simp add: forPages.simps [of env cat bound page])
      qed
    qed
  next
    case False
    then show ?thesis
      by (simp add: forPages.simps [of env cat bound page])
  qed
qed

lemma runPages_append:
  "runPages env (ps @ qs) allExams tr =
     (case runPages env ps allExams tr of
        (tr', Inl e) \<Rightarrow> (tr', Inl e)
      | (tr', Inr all') \<Rightarrow> runPages env qs all' tr')"
  by (induction ps arbitrary: allExams tr) (auto split: prod.splits sum.splits)

lemma processPages_runPages:
  "processPages env =
     (case runPages env plan [] [] of
        (tr, Inl e) \<Rightarrow> (tr, Inl e)
      | (tr, Inr all3) \<Rightarrow>
          (let workbook = [(''Exams'', Json_to_sheet all3)]
           in case xlsx_writeFile env ''exams.xlsx'' workbook of
                Some e \<Rightarrow> (tr, Inl e)
              | None \<Rightarrow>
                  (tr @ [WriteFile ''exams.xlsx'' workbook,
                          ConsoleLog ''Exams saved to exams.xlsx''], Inr ())))"
  unfolding processPages_def plan_def pagesOf_def forPages_runPages runPages_append
  by (auto simp: Let_def book_new_def book_append_sheet_def split: prod.splits sum.splits option.splits)


lemma fetchPage_eq:
  "fetchPage env (tr @ [ConsoleLog msg]) page cat =
     (tr @ [ConsoleLog msg, HttpGet (fetchPage_url page cat) (COOKIES env)],
      axios_get env (length (filter isHttpGet tr)) (fetchPage_url page cat) (COOKIES env))"
  by (simp add: fetchPage_def Let_def)

lemma request_Cons_0:
  "request env (cp # ps) k 0 = axios_get env k (fetchPage_url (snd cp) (fst cp)) (COOKIES env)"
  by (simp add: request_def)

lemma request_Cons_Suc:
  "request env (cp # ps) k (Suc i) = request env ps (Suc k) i"
  by (simp add: request_def)

lemma runPages_all_succeed:
  "\<forall>i<length ps. \<not> isl (request env ps (length (filter isHttpGet tr)) i) \<Longrightarrow>
     \<exists>all'. runPages env ps allExams tr = (tr @ concat (map (pageEvents env) ps), Inr all')"
proof (induction ps arbitrary: allExams tr)
  case Nil
  show ?case by simp
next
  case (Cons cp ps)
  let ?k = "length (filter isHttpGet tr)"
  let ?u = "fetchPage_url (snd cp) (fst cp)"
  from Cons.prems have "\<not> isl (request env (cp # ps) ?k 0)"
    by auto
  then obtain html where h: "axios_get env ?k ?u (COOKIES env) = Inr html"
    unfolding request_Cons_0 by (cases "axios_get env ?k ?u (COOKIES env)") auto
  let ?tr = "tr @ [ConsoleLog (fetchingMessage (fst cp) (snd cp)), HttpGet ?u (COOKIES env)] @ [Delay 1000]"
  have k: "length (filter isHttpGet ?tr) = Suc ?k"
    by simp
  have "\<forall>i<length ps. \<not> isl (request env ps (length (filter isHttpGet ?tr)) i)"
  proof (intro allI impI)
    fix i assume "i < length ps"
    then have "Suc i < length (cp # ps)" by simp
    with Cons.prems have "\<not> isl (request env (cp # ps) ?k (Suc i))" by blast
    then show "\<not> isl (request env ps (length (filter isHttpGet ?tr)) i)"
      unfolding k request_Cons_Suc .
  qed
  from Cons.IH [OF this, of "allExams @ parseExams (cheerio_load env) html (fst cp)"]
  obtain all' where
    "runPages env ps (allExams @ parseExams (cheerio_load env) html (fst cp)) ?tr =
       (?tr @ concat (map (pageEvents env) ps), Inr all')"
    by blast
  then show ?case
    by (simp add: fetchPage_eq h pageEvents_def [of env cp])
qed

lemma runPages_first_failure:
  "m < length ps \<Longrightarrow>
   \<forall>i<m. \<not> isl (request env ps (length (filter isHttpGet tr)) i) \<Longrightarrow>
   request env ps (length (filter isHttpGet tr)) m = Inl e \<Longrightarrow>
     runPages env ps allExams tr =
       (tr @ concat (map (pageEvents env) (take m ps))
           @ [ConsoleLog (fetchingMessage (fst (ps ! m)) (snd (ps ! m))),
              HttpGet (fetchPage_url (snd (ps ! m)) (fst (ps ! m))) (COOKIES env)],
        Inl e)"
proof (induction ps arbitrary: m allExams tr)
  case Nil
  then show ?case by simp
next
  case (Cons cp ps)
  let ?k = "length (filter isHttpGet tr)"
  let ?u = "fetchPage_url (snd cp) (fst cp)"
  show ?case
  proof (cases m)
    case 0
    with Cons.prems(3) have "axios_get env ?k ?u (COOKIES env) = Inl e"
      by (simp add: request_Cons_0)
    with 0 show ?thesis
      by (simp add: fetchPage_eq)
  next
    case (Suc n)
    with Cons.prems(2) have "\<not> isl (request env (cp # ps) ?k 0)"
      by blast
    then obtain html where h: "axios_get env ?k ?u (COOKIES env) = Inr html"
      unfolding request_Cons_0 by (cases "axios_get env ?k ?u (COOKIES env)") auto
    let ?tr = "tr @ [ConsoleLog (fetchingMessage (fst cp) (snd cp)), HttpGet ?u (COOKIES env)] @ [Delay 1000]"
    have k: "length (filter isHttpGet ?tr) = Suc ?k"
      by simp
    have n: "n < length ps"
      using Cons.prems(1) Suc by simp
    have ok: "\<forall>i<n. \<not> isl (request env ps (length (filter isHttpGet ?tr)) i)"
    proof (intro allI impI)
      fix i assume "i < n"
      then have "Suc i < m" using Suc by simp
      with Cons.prems(2) have "\<not> isl (request env (cp # ps) ?k (Suc i))" by blast
      then show "\<not> isl (request env ps (length (filter isHttpGet ?tr)) i)"
        unfolding k request_Cons_Suc .
    qed
    have bad: "request env ps (length (filter isHttpGet ?tr)) n = Inl e"
      using Cons.prems(3) Suc unfolding k by (simp add: request_Cons_Suc)
    from Cons.IH [OF n ok bad, of "allExams @ parseExams (cheerio_load env) html (fst cp)"] Suc
    show ?thesis
      by (simp add: fetchPage_eq h pageEvents_def [of env cp])
  qed
qed

lemma runPages_no_write:
  "filter isWriteFile (fst (runPages env ps allExams tr)) = filter isWriteFile tr"
proof (induction ps arbitrary: allExams tr)
  case Nil
  show ?case by simp
next
  case (Cons cp ps)
  show ?case
  proof (cases "axios_get env (length (filter isHttpGet tr)) (fetchPage_url (snd cp) (fst cp)) (COOKIES env)")
    case (Inl e)
    then show ?thesis by (simp add: fetchPage_eq)
  next
    case (Inr html)
    then show ?thesis by (simp add: fetchPage_eq Cons.IH)
  qed
qed

lemma runPages_failure_source:
  "runPages env ps allExams tr = (tr', Inl e) \<Longrightarrow>
     \<exists>m<length ps. request env ps (length (filter isHttpGet tr)) m = Inl e"
proof (induction ps arbitrary: allExams tr)
  case Nil
  then show ?case by simp
next
  case (Cons cp ps)
  let ?k = "length (filter isHttpGet tr)"
  let ?u = "fetchPage_url (snd cp) (fst cp)"
  show ?case
  proof (cases "axios_get env ?k ?u (COOKIES env)")
    case (Inl e')
    with Cons.prems have "e' = e" by (simp add: fetchPage_eq)
    with Inl have "request env (cp # ps) ?k 0 = Inl e" by (simp add: request_Cons_0)
    then show ?thesis by auto
  next
    case (Inr html)
    let ?tr = "tr @ [ConsoleLog (fetchingMessage (fst cp) (snd cp)), HttpGet ?u (COOKIES env)] @ [Delay 1000]"
    have k: "length (filter isHttpGet ?tr) = Suc ?k"
      by simp
    from Cons.prems Inr
    have "runPages env ps (allExams @ parseExams (cheerio_load env) html (fst cp)) ?tr = (tr', Inl e)"
      by (simp add: fetchPage_eq)
    from Cons.IH [OF this] obtain m where "m < length ps"
      "request env ps (Suc ?k) m = Inl e"
      unfolding k by blast
    then have "Suc m < length (cp # ps)" "request env (cp # ps) ?k (Suc m) = Inl e"
      by (simp_all add: request_Cons_Suc)
    then show ?thesis by blast
  qed
qed

lemma length_plan: "length plan = 108"
  by (simp add: plan_def pagesOf_def)

lemma gets_of_pageEvents:
  "filter isHttpGet (concat (map (pageEvents env) ps)) =
     map (\<lambda>cp. HttpGet (fetchPage_url (snd cp) (fst cp)) (COOKIES env)) ps"
  by (induction ps) (simp_all add: pageEvents_def)

lemma delays_of_pageEvents:
  "length (filter isDelay (concat (map (pageEvents env) ps))) = length ps"
  by (induction ps) (simp_all add: pageEvents_def)

lemma allSucceed_request:
  "allSucceed env ps \<longleftrightarrow> (\<forall>i<length ps. \<not> isl (request env ps 0 i))"
  by (auto simp: allSucceed_def request_def list_all_iff)

text \<open>
  C3. When every request of the run succeeds, the run over the three categories with
  the inclusive bounds 80, 20 and 5 issues exactly 108 requests, one for each page of
  the plan in its order (ECE 0 to 80, then Mathematics 0 to 20, then Math 0 to 5); its
  trace is, for each page in turn, the log line, the request and one pause of 1000
  milliseconds, followed by events that are neither requests nor pauses.
\<close>

theorem processPages_fetches_every_page_once:
  assumes "allSucceed env plan"
  shows "length plan = 108
    \<and> filter isHttpGet (fst (processPages env)) =
        map (\<lambda>cp. HttpGet (fetchPage_url (snd cp) (fst cp)) (COOKIES env)) plan
    \<and> length (filter isHttpGet (fst (processPages env))) = 108
    \<and> length (filter isDelay (fst (processPages env))) = 108
    \<and> (\<exists>rest. fst (processPages env) = concat (map (pageEvents env) plan) @ rest
          \<and> filter isHttpGet rest = [] \<and> filter isDelay rest = [])"
proof -
  from assms have "\<forall>i<length plan. \<not> isl (request env plan (length (filter isHttpGet [])) i)"
    by (simp add: allSucceed_request)
  from runPages_all_succeed [OF this, of "[]"] obtain all' where
    r: "runPages env plan [] [] = (concat (map (pageEvents env) plan), Inr all')"
    by auto
  let ?wb = "[(''Exams'', Json_to_sheet all')]"
  let ?rest = "case xlsx_writeFile env ''exams.xlsx'' ?wb of
                 Some e \<Rightarrow> []
               | None \<Rightarrow> [WriteFile ''exams.xlsx'' ?wb, ConsoleLog ''Exams saved to exams.xlsx'']"
  have tr: "fst (processPages env) = concat (map (pageEvents env) plan) @ ?rest"
    unfolding processPages_runPages r by (simp add: Let_def split: option.splits)
  have g: "filter isHttpGet ?rest = []" and d: "filter isDelay ?rest = []"
    by (simp_all split: option.splits)
  have gets: "filter isHttpGet (fst (processPages env)) =
        map (\<lambda>cp. HttpGet (fetchPage_url (snd cp) (fst cp)) (COOKIES env)) plan"
    unfolding tr filter_append g by (simp add: gets_of_pageEvents)
  have "length (filter isHttpGet (fst (processPages env))) = length plan"
    unfolding gets by simp
  moreover have "length (filter isDelay (fst (processPages env))) = length plan"
    unfolding tr filter_append d by (simp add: delays_of_pageEvents)
  moreover from tr g d have "\<exists>rest. fst (processPages env) = concat (map (pageEvents env) plan) @ rest
          \<and> filter isHttpGet rest = [] \<and> filter isDelay rest = []"
    by blast
  ultimately show ?thesis
    using gets length_plan by simp
qed

text \<open>
  A run that ends without an error has written one workbook, with the single sheet
  \<^verbatim>\<open>Exams\<close> made from the records of all the pages; nothing in the script treats an
  empty sequence of records differently.
\<close>

lemma processPages_writes_one_sheet:
  assumes "processPages env = (tr, Inr ())"
  shows "\<exists>tr' allExams.
     tr = tr' @ [WriteFile ''exams.xlsx'' [(''Exams'', Json_to_sheet allExams)],
                 ConsoleLog ''Exams saved to exams.xlsx'']
     \<and> filter isWriteFile tr' = []"
proof (cases "runPages env plan [] []")
  case (Pair tr' r)
  show ?thesis
  proof (cases r)
    case (Inl e)
    with Pair assms show ?thesis
      unfolding processPages_runPages by simp
  next
    case (Inr allExams)
    from runPages_no_write [of env plan "[]" "[]"] Pair have "filter isWriteFile tr' = []"
      by simp
    with Pair Inr assms show ?thesis
      unfolding processPages_runPages by (auto simp: Let_def split: option.splits)
  qed
qed

lemma okEnv_allSucceed: "allSucceed okEnv plan"
  by (simp add: allSucceed_def okEnv_def list_all_iff)

theorem processPages_fetches_every_page_once_witness:
  "allSucceed okEnv plan
   \<and> length (filter isHttpGet (fst (processPages okEnv))) = 108
   \<and> length (filter isDelay (fst (processPages okEnv))) = 108"
  using processPages_fetches_every_page_once [OF okEnv_allSucceed] okEnv_allSucceed
  by simp

lemma script_after_failure:
  "processPages env = (tr, Inl e) \<Longrightarrow> script env = (tr @ [ConsoleError e], Inr ())"
  by (simp add: script_def promise_catch_def console_error_def)

lemma exitCode_script: "exitCode (script env) = 0"
  by (simp add: script_def promise_catch_def exitCode_def split: prod.splits sum.splits)

lemma no_write_in_pageEvents:
  "filter isWriteFile (concat (map (pageEvents env) ps)) = []"
  by (induction ps) (simp_all add: pageEvents_def)

text \<open>
  C6, as the code has it. When a request of the run is rejected (a transport failure or
  a status outside 2xx) after the earlier ones succeeded, nothing in \<^verbatim>\<open>fetchPage\<close>,
  \<^verbatim>\<open>parseExams\<close> or \<^verbatim>\<open>processPages\<close> catches the error: \<^verbatim>\<open>processPages\<close> fails with
  that same error right after the request, with no further request, pause or file; the
  single handler at the top level logs the error; no file is written in that run; and
  the process, its rejection handled, ends with exit status 0.
\<close>

theorem fetch_failure_reaches_top_level_catch:
  assumes "m < length plan"
    and "\<forall>i<m. \<not> isl (request env plan 0 i)"
    and "request env plan 0 m = Inl e"
  shows "processPages env =
       (concat (map (pageEvents env) (take m plan))
          @ [ConsoleLog (fetchingMessage (fst (plan ! m)) (snd (plan ! m))),
             HttpGet (fetchPage_url (snd (plan ! m)) (fst (plan ! m))) (COOKIES env)],
        Inl e)
    \<and> script env =
       (concat (map (pageEvents env) (take m plan))
          @ [ConsoleLog (fetchingMessage (fst (plan ! m)) (snd (plan ! m))),
             HttpGet (fetchPage_url (snd (plan ! m)) (fst (plan ! m))) (COOKIES env),
             ConsoleError e],
        Inr ())
    \<and> filter isWriteFile (fst (script env)) = []
    \<and> exitCode (script env) = 0"
proof -
  let ?tr = "concat (map (pageEvents env) (take m plan))
          @ [ConsoleLog (fetchingMessage (fst (plan ! m)) (snd (plan ! m))),
             HttpGet (fetchPage_url (snd (plan ! m)) (fst (plan ! m))) (COOKIES env)]"
  have "runPages env plan [] [] = ([] @ ?tr, Inl e)"
    using assms by (intro runPages_first_failure) simp_all
  then have p: "processPages env = (?tr, Inl e)"
    unfolding processPages_runPages by simp
  from script_after_failure [OF p] have s: "script env = (?tr @ [ConsoleError e], Inr ())" .
  have "filter isWriteFile (fst (script env)) = []"
    unfolding s by (simp add: no_write_in_pageEvents)
  with p s exitCode_script [of env] show ?thesis
    by simp
qed

lemma take_2_plan: "take 2 plan = [(''ECE'', 0), (''ECE'', 1)]"
  unfolding plan_def pagesOf_def by code_simp

lemma plan_at_2: "plan ! 2 = (''ECE'', 2)"
  unfolding plan_def pagesOf_def by code_simp

lemma env503_requests:
  "request env503 plan 0 0 = Inr ''<html></html>''"
  "request env503 plan 0 1 = Inr ''<html></html>''"
  "request env503 plan 0 2 = Inl (HttpStatus 503)"
  by (simp_all add: request_def env503_def)

lemma env503_before: "\<forall>i<2. \<not> isl (request env503 plan 0 i)"
  by (simp add: request_def env503_def)

lemma numbers:
  "Number_toString 0 = ''0''" "Number_toString (Suc 0) = ''1''" "Number_toString 2 = ''2''"
  by (simp_all add: Number_toString.simps digitChar_def)

lemma env503_cookies: "COOKIES env503 = Some ''session=abc''"
  by (simp add: env503_def)

theorem fetch_failure_reaches_top_level_catch_witness:
  "request env503 plan 0 2 = Inl (HttpStatus 503)
   \<and> script env503 =
      ([ConsoleLog ''Fetching ECE page 0...'',
        HttpGet ''https://exams.engsoc.uwaterloo.ca/?tag=electrical-and-computer'' (Some ''session=abc''),
        Delay 1000,
        ConsoleLog ''Fetching ECE page 1...'',
        HttpGet ''https://exams.engsoc.uwaterloo.ca/?tag=electrical-and-computer&paged=1'' (Some ''session=abc''),
        Delay 1000,
        ConsoleLog ''Fetching ECE page 2...'',
        HttpGet ''https://exams.engsoc.uwaterloo.ca/?tag=electrical-and-computer&paged=2'' (Some ''session=abc''),
        ConsoleError (HttpStatus 503)], Inr ())
   \<and> exitCode (script env503) = 0"
proof -
  have m: "2 < length plan" by (simp add: length_plan)
  from fetch_failure_reaches_top_level_catch [OF m env503_before env503_requests(3)]
  show ?thesis
    unfolding take_2_plan plan_at_2
    by (simp add: env503_requests pageEvents_def fetchingMessage_def fetchPage_url_def
        baseUrl_def tagOf_def numbers env503_cookies exitCode_def)
qed

lemma plan_at_0: "plan ! 0 = (''ECE'', 0)"
  unfolding plan_def pagesOf_def by code_simp

lemma downEnv_first_request: "request downEnv plan 0 0 = Inl (NetworkError ''ECONNREFUSED'')"
  by (simp add: request_def downEnv_def)

lemma downEnv_cookies: "COOKIES downEnv = None"
  by (simp add: downEnv_def)

text \<open>
  C6 as stated asks for a non-zero process outcome. In the run where the first request
  fails in transport, \<^verbatim>\<open>processPages\<close> fails with that error and the exit status is 0.
\<close>

theorem failed_run_exits_with_status_zero:
  "processPages downEnv =
     ([ConsoleLog ''Fetching ECE page 0...'',
       HttpGet ''https://exams.engsoc.uwaterloo.ca/?tag=electrical-and-computer'' None],
      Inl (NetworkError ''ECONNREFUSED''))
   \<and> \<not> exitCode (script downEnv) \<noteq> 0"
proof -
  have "runPages downEnv plan [] [] =
     ([] @ concat (map (pageEvents downEnv) (take 0 plan))
         @ [ConsoleLog (fetchingMessage (fst (plan ! 0)) (snd (plan ! 0))),
            HttpGet (fetchPage_url (snd (plan ! 0)) (fst (plan ! 0))) (COOKIES downEnv)],
      Inl (NetworkError ''ECONNREFUSED''))"
    by (rule runPages_first_failure) (simp_all add: length_plan downEnv_first_request)
  then have "runPages downEnv plan [] [] =
     ([ConsoleLog ''Fetching ECE page 0...'',
       HttpGet ''https://exams.engsoc.uwaterloo.ca/?tag=electrical-and-computer'' None],
      Inl (NetworkError ''ECONNREFUSED''))"
    unfolding plan_at_0
    by (simp add: fetchingMessage_def fetchPage_url_def baseUrl_def tagOf_def numbers
        downEnv_cookies)
  then show ?thesis
    unfolding processPages_runPages by (simp add: exitCode_script)
qed


section \<open>Properties of the commits viewer\<close>

lemma bindE_eq_Inr: "bindE x f = Inr y \<longleftrightarrow> (\<exists>v. x = Inr v \<and> f v = Inr y)"
  by (cases x) (simp_all add: bindE_def)

lemma mset_insertBy: "mset (insertBy cmp x xs) = add_mset x (mset xs)"
  by (induction xs) simp_all

lemma Array_sort_Cons: "Array_sort cmp (x # xs) = insertBy cmp x (Array_sort cmp xs)"
  by (simp add: Array_sort_def)

lemma mset_Array_sort: "mset (Array_sort cmp xs) = mset xs"
proof (induction xs)
  case Nil
  show ?case by (simp add: Array_sort_def)
next
  case (Cons x xs)
  then show ?case by (simp add: Array_sort_Cons mset_insertBy)
qed

lemma set_Array_sort: "set (Array_sort cmp xs) = set xs"
  by (metis mset_Array_sort set_mset_mset)

lemma set_insertBy: "set (insertBy cmp x xs) = insert x (set xs)"
  by (metis mset_insertBy set_mset_mset set_mset_add_mset_insert)

lemma sorted_insertBy:
  assumes "consistent cmp" and "sorted_wrt (\<lambda>a b. cmp a b \<le> 0) xs"
  shows "sorted_wrt (\<lambda>a b. cmp a b \<le> 0) (insertBy cmp x xs)"
  using assms(2)
proof (induction xs)
  case Nil
  show ?case by simp
next
  case (Cons y ys)
  from assms(1) have total: "\<And>a b. cmp a b \<le> 0 \<or> cmp b a \<le> 0"
    and trans: "\<And>a b c. cmp a b \<le> 0 \<Longrightarrow> cmp b c \<le> 0 \<Longrightarrow> cmp a c \<le> 0"
    unfolding consistent_def by blast+
  show ?case
  proof (cases "cmp x y \<le> 0")
    case True
    have "\<forall>z\<in>set ys. cmp x z \<le> 0"
      using True Cons.prems trans by auto
    with True Cons.prems show ?thesis by simp
  next
    case False
    with total [of x y] have yx: "cmp y x \<le> 0" by simp
    from Cons have "sorted_wrt (\<lambda>a b. cmp a b \<le> 0) (insertBy cmp x ys)" by simp
    with False yx Cons.prems show ?thesis
      by (simp add: set_insertBy)
  qed
qed

lemma sorted_Array_sort:
  "consistent cmp \<Longrightarrow> sorted_wrt (\<lambda>a b. cmp a b \<le> 0) (Array_sort cmp xs)"
proof (induction xs)
  case Nil
  show ?case by (simp add: Array_sort_def)
next
  case (Cons x xs)
  then show ?case by (simp add: Array_sort_Cons sorted_insertBy)
qed

lemma loadLine_eq:
  "loadLine js rows line =
     Inr (rows @ (case lineRow js line of None \<Rightarrow> [] | Some r \<Rightarrow> [r]))"
  unfolding loadLine_def lineRow_def Let_def try_catch_def bindE_def
  by (simp split: sum.splits option.splits)

lemma forLines_eq:
  "forLines js rows lines = Inr (rows @ List.map_filter (lineRow js) lines)"
proof (induction lines arbitrary: rows)
  case Nil
  show ?case by (simp add: List.map_filter_simps)
next
  case (Cons line rest)
  show ?case
    by (simp add: loadLine_eq bindE_def Cons.IH List.map_filter_simps split: option.splits)
qed

lemma parseCommitRow_Some:
  assumes "parseCommitRow js obj = Inr (Some r)"
  shows "sha r \<noteq> [] \<and> coercedFrom js obj r"
proof -
  from assms have ok: "\<not> (falsy js obj \<or> typeof obj \<noteq> ''object'')"
    unfolding parseCommitRow_def by (auto split: if_splits)
  from assms ok obtain s where s: "asString js (getProp obj ''sha'') = Inr s" "s \<noteq> []"
    unfolding parseCommitRow_def by (auto simp: bindE_eq_Inr split: if_splits)
  from assms ok s show ?thesis
    unfolding parseCommitRow_def coercedFrom_def
    by (simp add: bindE_eq_Inr) (elim exE conjE, hypsubst, simp)
qed

lemma lineRow_Some:
  assumes "lineRow js line = Some r"
  shows "\<exists>obj. JSON_parse js (trim line) = Inr obj \<and> parseCommitRow js obj = Inr (Some r)"
  using assms unfolding lineRow_def loadLine_def Let_def try_catch_def bindE_def
  by (auto split: sum.splits option.splits if_splits list.splits)

lemma parseCommitRow_not_object:
  "\<forall>kvs. obj \<noteq> JObject kvs \<Longrightarrow> parseCommitRow js obj = Inr None"
  by (cases obj) (simp_all add: parseCommitRow_def asString_def bindE_def)

lemma parseCommitRow_no_sha:
  "asString js (getProp obj ''sha'') = Inr [] \<Longrightarrow> parseCommitRow js obj = Inr None"
  by (simp add: parseCommitRow_def bindE_def)

lemma lineRow_blank: "trim line = [] \<Longrightarrow> lineRow js line = None"
  by (simp add: lineRow_def loadLine_def)

lemma lineRow_bad_json: "isl (JSON_parse js (trim line)) \<Longrightarrow> lineRow js line = None"
  by (cases "JSON_parse js (trim line)")
     (simp_all add: lineRow_def loadLine_def Let_def try_catch_def bindE_def)

lemma lineRow_no_row:
  "JSON_parse js (trim line) = Inr obj \<Longrightarrow> parseCommitRow js obj = Inr None \<Longrightarrow>
     lineRow js line = None"
  by (simp add: lineRow_def loadLine_def Let_def try_catch_def bindE_def)

lemma load_eq:
  "readFile js = Inr raw \<Longrightarrow>
     loadCommitsFromRepoJsonl js =
       Inr (Array_sort (byDateDescending js) (List.map_filter (lineRow js) (splitLines raw)))"
  by (simp add: loadCommitsFromRepoJsonl_def bindE_def forLines_eq)

text \<open>
  C9. Whatever the content of the file, \<^verbatim>\<open>loadCommitsFromRepoJsonl\<close> returns a list and
  throws nothing: the rows are those that the lines contribute; a line that is blank,
  is not valid JSON, does not parse to an object, or whose \<^verbatim>\<open>sha\<close> coerces to the empty
  string contributes none; every row returned has a non-empty \<^verbatim>\<open>sha\<close> and its fields
  are the string coercions (or \<^verbatim>\<open>null\<close>, for the nullable ones) of the properties of the
  value parsed from a line of the file.
\<close>

theorem loadCommits_skips_malformed_lines:
  assumes "readFile js = Inr raw"
  shows "\<exists>rows. loadCommitsFromRepoJsonl js = Inr rows
     \<and> mset rows = mset (List.map_filter (lineRow js) (splitLines raw))
     \<and> (\<forall>r\<in>set rows. sha r \<noteq> []
           \<and> (\<exists>line\<in>set (splitLines raw). \<exists>obj.
                 JSON_parse js (trim line) = Inr obj \<and> coercedFrom js obj r))
     \<and> (\<forall>line.
           trim line = []
           \<or> isl (JSON_parse js (trim line))
           \<or> (\<exists>obj. JSON_parse js (trim line) = Inr obj
                 \<and> ((\<forall>kvs. obj \<noteq> JObject kvs)
                      \<or> asString js (getProp obj ''sha'') = Inr []))
           \<longrightarrow> lineRow js line = None)"
proof -
  let ?lines = "splitLines raw"
  let ?rows = "Array_sort (byDateDescending js) (List.map_filter (lineRow js) ?lines)"
  have l: "loadCommitsFromRepoJsonl js = Inr ?rows"
    using assms by (rule load_eq)
  have m: "mset ?rows = mset (List.map_filter (lineRow js) ?lines)"
    by (rule mset_Array_sort)
  have f: "sha r \<noteq> [] \<and> (\<exists>line\<in>set ?lines. \<exists>obj.
                 JSON_parse js (trim line) = Inr obj \<and> coercedFrom js obj r)"
    if "r \<in> set ?rows" for r
  proof -
    from that have "r \<in> set (List.map_filter (lineRow js) ?lines)"
      by (simp add: set_Array_sort)
    then obtain line where line: "line \<in> set ?lines" "lineRow js line = Some r"
      by (auto simp: List.map_filter_def)
    from lineRow_Some [OF line(2)] obtain obj where
      obj: "JSON_parse js (trim line) = Inr obj" "parseCommitRow js obj = Inr (Some r)"
      by blast
    from parseCommitRow_Some [OF obj(2)] line(1) obj(1) show ?thesis
      by blast
  qed
  have s: "lineRow js line = None"
    if "trim line = []
           \<or> isl (JSON_parse js (trim line))
           \<or> (\<exists>obj. JSON_parse js (trim line) = Inr obj
                 \<and> ((\<forall>kvs. obj \<noteq> JObject kvs)
                      \<or> asString js (getProp obj ''sha'') = Inr []))" for line
    using that lineRow_blank lineRow_bad_json lineRow_no_row
      parseCommitRow_not_object parseCommitRow_no_sha
    by metis
  from l m f s show ?thesis
    by blast
qed

lemma demo_readFile: "readFile demoJs = Inr demoRaw"
  by (simp add: demoJs_def)

lemma demo_load: "loadCommitsFromRepoJsonl demoJs = Inr demoCommits"
  unfolding demoCommits_def using demo_readFile by (rule load_eq)

lemma demo_shas: "map sha demoCommits = [''C3'', ''b2'', ''a1'', ''d4'']"
  by code_simp

lemma demo_lines: "length (splitLines demoRaw) = 11"
  by code_simp

theorem loadCommits_skips_malformed_lines_witness:
  "readFile demoJs = Inr demoRaw
   \<and> length (splitLines demoRaw) = 11
   \<and> (\<exists>rows. loadCommitsFromRepoJsonl demoJs = Inr rows
         \<and> map sha rows = [''C3'', ''b2'', ''a1'', ''d4'']
         \<and> mset rows = mset (List.map_filter (lineRow demoJs) (splitLines demoRaw)))"
proof -
  from loadCommits_skips_malformed_lines [OF demo_readFile] obtain rows where
    rows: "loadCommitsFromRepoJsonl demoJs = Inr rows"
      "mset rows = mset (List.map_filter (lineRow demoJs) (splitLines demoRaw))"
    by blast
  from rows(1) demo_load have "rows = demoCommits" by simp
  with demo_shas have "map sha rows = [''C3'', ''b2'', ''a1'', ''d4'']" by simp
  with rows have "\<exists>rows. loadCommitsFromRepoJsonl demoJs = Inr rows
         \<and> map sha rows = [''C3'', ''b2'', ''a1'', ''d4'']
         \<and> mset rows = mset (List.map_filter (lineRow demoJs) (splitLines demoRaw))"
    by (intro exI conjI)
  with demo_readFile demo_lines show ?thesis by (intro conjI)
qed

lemma consistent_byDateDescending:
  assumes "consistent (localeCompare js)"
  shows "consistent (byDateDescending js)"
proof -
  from assms have total: "\<And>a b. localeCompare js a b \<le> 0 \<or> localeCompare js b a \<le> 0"
    and trans: "\<And>a b c. localeCompare js a b \<le> 0 \<Longrightarrow> localeCompare js b c \<le> 0
                  \<Longrightarrow> localeCompare js a c \<le> 0"
    unfolding consistent_def by blast+
  show ?thesis
    unfolding consistent_def byDateDescending_def
    using total trans by blast
qed

lemma consistent_byName:
  assumes "consistent (localeCompare js)"
  shows "consistent (byName js)"
proof -
  from assms have total: "\<And>a b. localeCompare js a b \<le> 0 \<or> localeCompare js b a \<le> 0"
    and trans: "\<And>a b c. localeCompare js a b \<le> 0 \<Longrightarrow> localeCompare js b c \<le> 0
                  \<Longrightarrow> localeCompare js a c \<le> 0"
    unfolding consistent_def by blast+
  show ?thesis
    unfolding consistent_def byName_def
    using total trans by blast
qed

lemma loaded_sorted:
  assumes "consistent (localeCompare js)" and "loadCommitsFromRepoJsonl js = Inr commits"
  shows "sorted_wrt (\<lambda>a b. byDateDescending js a b \<le> 0) commits"
proof -
  from assms(2) obtain rows where "commits = Array_sort (byDateDescending js) rows"
    unfolding loadCommitsFromRepoJsonl_def by (auto simp: bindE_eq_Inr)
  with sorted_Array_sort [OF consistent_byDateDescending [OF assms(1)]] show ?thesis
    by simp
qed


lemma map_of_push:
  "map_of (map (\<lambda>(k, a). if k = key then (k, a @ [c]) else (k, a)) m) k' =
     (if k' = key then map_option (\<lambda>a. a @ [c]) (map_of m k') else map_of m k')"
  by (induction m) auto

lemma mset_push:
  "distinct (map fst m) \<Longrightarrow> map_of m key = Some arr \<Longrightarrow>
     mset (concat (map snd (map (\<lambda>(k, a). if k = key then (k, a @ [c]) else (k, a)) m)))
       = add_mset c (mset (concat (map snd m)))"
proof (induction m)
  case Nil
  then show ?case by simp
next
  case (Cons p m)
  obtain k a where p: "p = (k, a)" by (cases p)
  show ?case
  proof (cases "k = key")
    case True
    with Cons.prems p have "key \<notin> fst ` set m" by auto
    then have "map (\<lambda>(k, a). if k = key then (k, a @ [c]) else (k, a)) m = m"
      by (induction m) auto
    with True p show ?thesis by simp
  next
    case False
    with Cons.prems p have "distinct (map fst m)" "map_of m key = Some arr" by auto
    from Cons.IH [OF this] False p show ?thesis by simp
  qed
qed

lemma groupedStep_keys:
  "map fst (groupedStep m c) =
     (if groupKey c \<in> set (map fst m) then map fst m else map fst m @ [groupKey c])"
proof (cases "map_of m (groupKey c)")
  case None
  then have "groupKey c \<notin> set (map fst m)"
    by (simp add: map_of_eq_None_iff)
  with None show ?thesis
    by (simp add: groupedStep_def)
next
  case (Some arr)
  then have "groupKey c \<in> set (map fst m)"
    by (metis map_of_eq_None_iff option.distinct(1) list.set_map)
  with Some show ?thesis
    by (auto simp: groupedStep_def)
qed

lemma groupedStep_distinct:
  "distinct (map fst m) \<Longrightarrow> distinct (map fst (groupedStep m c))"
  unfolding groupedStep_keys by simp

lemma groupedStep_mset:
  "distinct (map fst m) \<Longrightarrow>
     mset (concat (map snd (groupedStep m c))) = add_mset c (mset (concat (map snd m)))"
proof (cases "map_of m (groupKey c)")
  case None
  then show ?thesis by (simp add: groupedStep_def)
next
  case (Some arr)
  assume "distinct (map fst m)"
  from mset_push [OF this Some, of c] Some show ?thesis
    by (simp add: groupedStep_def)
qed

lemma groupedStep_lookup:
  "map_of (groupedStep m c) k =
     (if k = groupKey c
      then Some ((case map_of m k of None \<Rightarrow> [] | Some a \<Rightarrow> a) @ [c])
      else map_of m k)"
proof (cases "map_of m (groupKey c)")
  case None
  then show ?thesis by (simp add: groupedStep_def map_add_def split: option.splits)
next
  case (Some arr)
  then show ?thesis by (simp add: groupedStep_def map_of_push)
qed

lemma grouping_distinct: "distinct (map fst (foldl groupedStep [] xs))"
  by (induction xs rule: rev_induct) (simp_all add: groupedStep_distinct)

lemma grouping_mset: "mset (concat (map snd (foldl groupedStep [] xs))) = mset xs"
  by (induction xs rule: rev_induct) (simp_all add: groupedStep_mset grouping_distinct)

lemma grouping_lookup:
  "map_of (foldl groupedStep [] xs) k =
     (if k \<in> groupKey ` set xs then Some (filter (\<lambda>c. groupKey c = k) xs) else None)"
proof (induction xs rule: rev_induct)
  case Nil
  show ?case by simp
next
  case (snoc x xs)
  have none: "filter (\<lambda>c. groupKey c = k) xs = []" if "k \<notin> groupKey ` set xs"
    using that by (induction xs) auto
  show ?case
  proof (cases "k = groupKey x")
    case True
    with snoc none show ?thesis
      by (simp add: groupedStep_lookup)
  next
    case False
    with snoc show ?thesis
      by (simp add: groupedStep_lookup)
  qed
qed

lemma grouping_entries:
  assumes "(k, arr) \<in> set (foldl groupedStep [] xs)"
  shows "arr \<noteq> [] \<and> arr = filter (\<lambda>c. groupKey c = k) xs"
proof -
  from assms grouping_distinct [of xs] have "map_of (foldl groupedStep [] xs) k = Some arr"
    by simp
  then have k: "k \<in> groupKey ` set xs" and a: "arr = filter (\<lambda>c. groupKey c = k) xs"
    unfolding grouping_lookup by (simp_all split: if_splits)
  from k obtain c where "c \<in> set xs" "groupKey c = k" by auto
  then have "c \<in> set (filter (\<lambda>c. groupKey c = k) xs)" by simp
  then have "filter (\<lambda>c. groupKey c = k) xs \<noteq> []" by (metis empty_iff empty_set)
  with a show ?thesis by simp
qed

lemma mset_concat_groups:
  "mset (concat (map snd G)) = sum_mset (image_mset (\<lambda>p. mset (snd p)) (mset G))"
  by (induction G) simp_all

lemma concat_groups_permuted:
  "mset G = mset M \<Longrightarrow> mset (concat (map snd G)) = mset (concat (map snd M))"
  by (simp add: mset_concat_groups)

text \<open>
  C8. For the commits that \<^verbatim>\<open>loadCommitsFromRepoJsonl\<close> returned and every search text
  and selected repository, the rendered groups partition the filtered commits by
  repository name (an empty name under the label \<^verbatim>\<open>(unknown repo)\<close>): every filtered
  commit is in exactly one group, the groups have distinct names, and a group holds
  exactly the filtered commits of its name, none being empty. The groups are in
  ascending order of their names, and the commits of a group in descending order of
  their author date strings (a missing date as the empty string), both by
  \<^verbatim>\<open>localeCompare\<close>, taken to be a consistent comparison.
\<close>

theorem grouped_partitions_and_orders:
  assumes "consistent (localeCompare js)"
    and "loadCommitsFromRepoJsonl js = Inr commits"
  shows "mset (concat (map snd (grouped js (filtered js commits q selected))))
           = mset (filtered js commits q selected)
     \<and> distinct (map fst (grouped js (filtered js commits q selected)))
     \<and> (\<forall>(k, arr)\<in>set (grouped js (filtered js commits q selected)).
           arr \<noteq> []
           \<and> arr = filter (\<lambda>c. groupKey c = k) (filtered js commits q selected)
           \<and> sorted_wrt (\<lambda>a b. localeCompare js (dateOrEmpty b) (dateOrEmpty a) \<le> 0) arr)
     \<and> sorted_wrt (\<lambda>a b. localeCompare js (fst a) (fst b) \<le> 0)
           (grouped js (filtered js commits q selected))"
proof -
  let ?flt = "filtered js commits q selected"
  let ?M = "foldl groupedStep [] ?flt"
  let ?G = "grouped js ?flt"
  have G: "?G = Array_sort (byName js) ?M"
    by (simp add: grouped_def)
  have perm: "mset ?G = mset ?M"
    unfolding G by (rule mset_Array_sort)
  have p1: "mset (concat (map snd ?G)) = mset ?flt"
    using concat_groups_permuted [OF perm] grouping_mset [of ?flt] by simp
  have "mset (map fst ?G) = mset (map fst ?M)"
    using perm by (metis mset_map)
  then have p2: "distinct (map fst ?G)"
    using grouping_distinct [of ?flt] by (metis mset_eq_imp_distinct_iff)
  have "sorted_wrt (\<lambda>a b. byDateDescending js a b \<le> 0) commits"
    using assms by (rule loaded_sorted)
  then have byDate: "sorted_wrt (\<lambda>a b. localeCompare js (dateOrEmpty b) (dateOrEmpty a) \<le> 0) commits"
    by (simp add: byDateDescending_def)
  have "\<exists>P. ?flt = filter P commits"
    unfolding filtered_def Let_def by blast
  then obtain P where P: "?flt = filter P commits" ..
  have fltSorted: "sorted_wrt (\<lambda>a b. localeCompare js (dateOrEmpty b) (dateOrEmpty a) \<le> 0) ?flt"
    unfolding P using byDate by (rule sorted_wrt_filter)
  have p3: "arr \<noteq> [] \<and> arr = filter (\<lambda>c. groupKey c = k) ?flt
           \<and> sorted_wrt (\<lambda>a b. localeCompare js (dateOrEmpty b) (dateOrEmpty a) \<le> 0) arr"
    if "(k, arr) \<in> set ?G" for k arr
  proof -
    from that have "(k, arr) \<in> set ?M"
      unfolding G by (simp add: set_Array_sort)
    from grouping_entries [OF this]
    have e1: "arr \<noteq> []" and e2: "arr = filter (\<lambda>c. groupKey c = k) ?flt"
      by blast+
    have s: "sorted_wrt (\<lambda>a b. localeCompare js (dateOrEmpty b) (dateOrEmpty a) \<le> 0) arr"
      by (subst e2) (rule sorted_wrt_filter [OF fltSorted])
    from e1 e2 s show ?thesis by blast
  qed
  have "sorted_wrt (\<lambda>a b. byName js a b \<le> 0) ?G"
    unfolding G using consistent_byName [OF assms(1)] by (rule sorted_Array_sort)
  then have p4: "sorted_wrt (\<lambda>a b. localeCompare js (fst a) (fst b) \<le> 0) ?G"
    by (simp add: byName_def)
  from p3 have p3': "\<forall>(k, arr)\<in>set ?G.
           arr \<noteq> [] \<and> arr = filter (\<lambda>c. groupKey c = k) ?flt
           \<and> sorted_wrt (\<lambda>a b. localeCompare js (dateOrEmpty b) (dateOrEmpty a) \<le> 0) arr"
    by blast
  from p1 p2 p3' p4 show ?thesis
    by (intro conjI)
qed

lemma demo_consistent: "consistent (localeCompare demoJs)"
  unfolding consistent_def by (auto simp: demoJs_def compareUnits_def)

lemma demo_groups:
  "map (\<lambda>(k, arr). (k, map sha arr)) (grouped demoJs (filtered demoJs demoCommits [] ''all''))
     = [(''(unknown repo)'', [''d4'']), (''org/a'', [''C3'']), (''org/b'', [''b2'', ''a1''])]"
  by code_simp

lemma demo_search:
  "map (\<lambda>(k, arr). (k, map sha arr)) (grouped demoJs (filtered demoJs demoCommits '' c3 '' ''all''))
     = [(''org/a'', [''C3''])]"
  by code_simp

theorem grouped_partitions_and_orders_witness:
  "consistent (localeCompare demoJs)
   \<and> loadCommitsFromRepoJsonl demoJs = Inr demoCommits
   \<and> map (\<lambda>(k, arr). (k, map sha arr)) (grouped demoJs (filtered demoJs demoCommits [] ''all''))
       = [(''(unknown repo)'', [''d4'']), (''org/a'', [''C3'']), (''org/b'', [''b2'', ''a1''])]
   \<and> distinct (map fst (grouped demoJs (filtered demoJs demoCommits [] ''all'')))
   \<and> sorted_wrt (\<lambda>a b. localeCompare demoJs (fst a) (fst b) \<le> 0)
        (grouped demoJs (filtered demoJs demoCommits [] ''all''))
   \<and> mset (concat (map snd (grouped demoJs (filtered demoJs demoCommits [] ''all''))))
       = mset (filtered demoJs demoCommits [] ''all'')"
proof -
  note t = grouped_partitions_and_orders [OF demo_consistent demo_load, of "[]" "''all''"]
  from t have d: "distinct (map fst (grouped demoJs (filtered demoJs demoCommits [] ''all'')))"
    by (rule conjunct2 [THEN conjunct1])
  from t have s: "sorted_wrt (\<lambda>a b. localeCompare demoJs (fst a) (fst b) \<le> 0)
        (grouped demoJs (filtered demoJs demoCommits [] ''all''))"
    by (rule conjunct2 [THEN conjunct2, THEN conjunct2])
  from t have m: "mset (concat (map snd (grouped demoJs (filtered demoJs demoCommits [] ''all''))))
       = mset (filtered demoJs demoCommits [] ''all'')"
    by (rule conjunct1)
  from demo_consistent demo_load demo_groups d s m show ?thesis
    by (intro conjI)
qed

end
